theory Spec2Isabelle
  imports Complex_Main "HOL-Library.Sublist" "HOL-Library.Product_Lexorder"
begin

section \<open>Python strings\<close>

text \<open>
  A Python \<open>str\<close> is a sequence of Unicode code points. It is modelled as a list of
  natural numbers, one per code point, so that \<open>length\<close> counts what Python's \<open>len\<close>
  counts and the line boundaries and white space beyond Latin-1 are representable.
  \<open>lit\<close> turns an Isabelle string literal (ASCII) into such a list.
\<close>

type_synonym str = "nat list"

definition lit :: "string \<Rightarrow> str" where
  "lit s = map of_char s"

abbreviation LF :: nat where "LF \<equiv> 10"
abbreviation CR :: nat where "CR \<equiv> 13"
abbreviation TAB :: nat where "TAB \<equiv> 9"
abbreviation BSL :: nat where "BSL \<equiv> 92"  \<comment> \<open>the backslash\<close>

text \<open>
  \<open>str.splitlines\<close> breaks a string after each of: LF, VT, FF, CR, FS, GS, RS, NEL
  (U+0085), LS (U+2028), PS (U+2029); CR LF counts as one boundary.
\<close>

definition is_linebreak :: "nat \<Rightarrow> bool" where
  "is_linebreak c \<longleftrightarrow> c \<in> {10, 11, 12, 13, 28, 29, 30, 133, 8232, 8233}"

text \<open>
  White space as \<open>str.strip\<close>, \<open>str.isspace\<close> and the regular-expression class
  \<open>\s\<close> see it on a \<open>str\<close>.
\<close>

definition is_space :: "nat \<Rightarrow> bool" where
  "is_space c \<longleftrightarrow>
     (9 \<le> c \<and> c \<le> 13) \<or> (28 \<le> c \<and> c \<le> 32) \<or> c = 133 \<or> c = 160 \<or> c = 5760 \<or>
     (8192 \<le> c \<and> c \<le> 8202) \<or> c = 8232 \<or> c = 8233 \<or> c = 8239 \<or> c = 8287 \<or> c = 12288"

text \<open>\<open>s.splitlines(keepends=True)\<close>; \<open>cur\<close> is the line read so far.\<close>

fun splitlines_from :: "str \<Rightarrow> str \<Rightarrow> str list" where
  "splitlines_from cur [] = (if cur = [] then [] else [cur])"
| "splitlines_from cur [c] = [cur @ [c]]"
| "splitlines_from cur (c # d # ds) =
     (if c = CR \<and> d = LF then (cur @ [CR, LF]) # splitlines_from [] ds
      else if is_linebreak c then (cur @ [c]) # splitlines_from [] (d # ds)
      else splitlines_from (cur @ [c]) (d # ds))"

definition splitlines_keepends :: "str \<Rightarrow> str list" where
  "splitlines_keepends s = splitlines_from [] s"

text \<open>\<open>s.splitlines()\<close>: the same lines without their terminators.\<close>

definition chomp :: "str \<Rightarrow> str" where
  "chomp l =
     (if l = [] then []
      else if 2 \<le> length l \<and> last l = LF \<and> last (butlast l) = CR then butlast (butlast l)
      else if is_linebreak (last l) then butlast l
      else l)"

definition splitlines :: "str \<Rightarrow> str list" where
  "splitlines s = map chomp (splitlines_keepends s)"

definition startswith :: "str \<Rightarrow> str \<Rightarrow> bool" where
  "startswith s p \<longleftrightarrow> take (length p) s = p"

definition endswith :: "str \<Rightarrow> str \<Rightarrow> bool" where
  "endswith s p \<longleftrightarrow> length p \<le> length s \<and> drop (length s - length p) s = p"

definition lstrip :: "str \<Rightarrow> str" where
  "lstrip s = dropWhile is_space s"

definition rstrip :: "str \<Rightarrow> str" where
  "rstrip s = rev (dropWhile is_space (rev s))"

definition strip :: "str \<Rightarrow> str" where
  "strip s = rstrip (lstrip s)"

text \<open>\<open>sub in s\<close>.\<close>

fun contains :: "str \<Rightarrow> str \<Rightarrow> bool" where
  "contains [] sub = (sub = [])"
| "contains (c # cs) sub = (startswith (c # cs) sub \<or> contains cs sub)"

text \<open>
  \<open>s.replace(a, b)\<close> for a non-empty \<open>a\<close> (the only use in the source): the
  occurrences are replaced from the left, without overlap.
\<close>

function replace :: "str \<Rightarrow> str \<Rightarrow> str \<Rightarrow> str" where
  "replace [] a b = []"
| "replace (c # cs) a b =
     (if a \<noteq> [] \<and> startswith (c # cs) a then b @ replace (drop (length a) (c # cs)) a b
      else c # replace cs a b)"
  by pat_completeness auto
termination
  by (relation "measure (\<lambda>(s, a, b). length s)") (auto simp: startswith_def)

text \<open>\<open>s.count(q)\<close> for a non-empty \<open>q\<close>: occurrences without overlap.\<close>

function count_sub :: "str \<Rightarrow> str \<Rightarrow> nat" where
  "count_sub [] q = 0"
| "count_sub (c # cs) q =
     (if q \<noteq> [] \<and> startswith (c # cs) q then 1 + count_sub (drop (length q) (c # cs)) q
      else count_sub cs q)"
  by pat_completeness auto
termination
  by (relation "measure (\<lambda>(s, q). length s)") (auto simp: startswith_def)

text \<open>\<open>s.split(sep)\<close> for a separator of one code point; never the empty list.\<close>

fun split_on :: "nat \<Rightarrow> str \<Rightarrow> str list" where
  "split_on sep [] = [[]]"
| "split_on sep (c # cs) =
     (if c = sep then [] # split_on sep cs
      else (case split_on sep cs of [] \<Rightarrow> [[c]] | l # ls \<Rightarrow> (c # l) # ls))"

text \<open>\<open>sep.join(xs)\<close>.\<close>

fun join :: "str \<Rightarrow> str list \<Rightarrow> str" where
  "join sep [] = []"
| "join sep [x] = x"
| "join sep (x # y # ys) = x @ sep @ join sep (y # ys)"

text \<open>
  \<open>s.lower()\<close>. The ASCII capitals go to their small letters. Of all other code
  points only two have an image that contains an ASCII letter: the Kelvin sign U+212A
  (to \<open>k\<close>) and U+0130 (to \<open>i\<close> followed by U+0307). The remaining code points are left
  as they are: their images are outside ASCII, and the source compares lowered text
  with ASCII literals only.
\<close>

definition lower_cp :: "nat \<Rightarrow> str" where
  "lower_cp c =
     (if 65 \<le> c \<and> c \<le> 90 then [c + 32]
      else if c = 8490 then [107]
      else if c = 304 then [105, 775]
      else [c])"

definition lower :: "str \<Rightarrow> str" where
  "lower s = concat (map lower_cp s)"

section \<open>The diff applier (diff/apply.py)\<close>

text \<open>
  \<open>PatchApplyError\<close> carries a message; the messages built with \<open>repr\<close> keep the
  offending text as it is, unformatted.
\<close>

datatype PatchApplyError =
    NoHunksFound
  | ExpectedHunkHeader str
  | InvalidHunkHeader str
  | TargetBeforeCurrentIndex
  | ContextEOF
  | ContextMismatch
  | DeleteEOF
  | DeleteMismatch
  | InvalidHunkLine str
  | EmptyHunkBody

text \<open>The fixed part of each message, as the source raises it.\<close>

fun error_message :: "PatchApplyError \<Rightarrow> str" where
  "error_message NoHunksFound = lit ''Invalid patch: no hunks found''"
| "error_message (ExpectedHunkHeader h) = lit ''Invalid patch: expected hunk header, got: '' @ h"
| "error_message (InvalidHunkHeader h) = lit ''Invalid hunk header: '' @ h"
| "error_message TargetBeforeCurrentIndex =
     lit ''Patch context out of range (target before current index)''"
| "error_message ContextEOF = lit ''Patch context out of range (EOF)''"
| "error_message ContextMismatch = lit ''Patch context mismatch''"
| "error_message DeleteEOF = lit ''Patch delete out of range (EOF)''"
| "error_message DeleteMismatch = lit ''Patch delete mismatch''"
| "error_message (InvalidHunkLine l) = lit ''Invalid hunk line: '' @ l"
| "error_message EmptyHunkBody = lit ''Empty hunk body''"

subsection \<open>The hunk header\<close>

text \<open>
  \<open>_HUNK_RE\<close> is \<^verbatim>\<open>^@@\s+-(\d+)(?:,(\d+))?\s+\+(\d+)(?:,(\d+))?\s+@@$\<close>, matched
  against the stripped header. The character classes of consecutive parts are disjoint,
  so the match is a deterministic scan. Only group 1 is used. \<open>\d\<close> is modelled on the
  ASCII digits; the decimal digits of other scripts, which Python's \<open>\d\<close> and \<open>int\<close>
  also accept, are not digits here.
\<close>

definition is_digit :: "nat \<Rightarrow> bool" where
  "is_digit c \<longleftrightarrow> 48 \<le> c \<and> c \<le> 57"

definition int_of_digits :: "str \<Rightarrow> nat" where
  "int_of_digits ds = foldl (\<lambda>n c. 10 * n + (c - 48)) 0 ds"

text \<open>One or more characters of a class, then the rest.\<close>

definition many1 :: "(nat \<Rightarrow> bool) \<Rightarrow> str \<Rightarrow> (str \<times> str) option" where
  "many1 P s = (if takeWhile P s = [] then None else Some (takeWhile P s, dropWhile P s))"

definition expect :: "str \<Rightarrow> str \<Rightarrow> str option" where
  "expect p s = (if startswith s p then Some (drop (length p) s) else None)"

text \<open>\<^verbatim>\<open>(\d+)(?:,(\d+))?\<close>: the first number and the rest.\<close>

definition range_spec :: "str \<Rightarrow> (nat \<times> str) option" where
  "range_spec s =
     Option.bind (many1 is_digit s) (\<lambda>(ds, r).
       case Option.bind (expect (lit '','') r) (many1 is_digit) of
         None \<Rightarrow> Some (int_of_digits ds, r)
       | Some (_, r') \<Rightarrow> Some (int_of_digits ds, r'))"

definition hunk_re_match :: "str \<Rightarrow> nat option" where
  "hunk_re_match h =
     Option.bind (expect (lit ''@@'') h) (\<lambda>r1.
     Option.bind (many1 is_space r1) (\<lambda>(_, r2).
     Option.bind (expect (lit ''-'') r2) (\<lambda>r3.
     Option.bind (range_spec r3) (\<lambda>(old_start, r4).
     Option.bind (many1 is_space r4) (\<lambda>(_, r5).
     Option.bind (expect (lit ''+'') r5) (\<lambda>r6.
     Option.bind (range_spec r6) (\<lambda>(_, r7).
     Option.bind (many1 is_space r7) (\<lambda>(_, r8).
     if r8 = lit ''@@'' then Some old_start else None))))))))"

subsection \<open>apply_unified_diff\<close>

text \<open>
  The outer loop (one iteration per hunk) is \<open>hunks\<close>, the inner loop over the body
  lines is \<open>hunk_body\<close>. The state is the output so far and the cursor \<open>old_idx\<close>;
  \<open>hunk_lines\<close> counts the body lines of the current hunk.
\<close>

fun hunks :: "str list \<Rightarrow> str list \<Rightarrow> nat \<Rightarrow> str list \<Rightarrow> PatchApplyError + str"
  and hunk_body :: "str list \<Rightarrow> str list \<Rightarrow> nat \<Rightarrow> nat \<Rightarrow> str list \<Rightarrow> PatchApplyError + str"
where
  "hunks old_lines out old_idx [] = Inr (concat (out @ drop old_idx old_lines))"
| "hunks old_lines out old_idx (header # rest) =
     (if \<not> startswith header (lit ''@@'') then Inl (ExpectedHunkHeader (take 80 header))
      else case hunk_re_match (strip header) of
        None \<Rightarrow> Inl (InvalidHunkHeader (strip header))
      | Some old_start \<Rightarrow>
          (let target_old_idx = min (old_start - 1) (length old_lines) in
           if target_old_idx < old_idx then Inl TargetBeforeCurrentIndex
           else hunk_body old_lines
                  (out @ take (target_old_idx - old_idx) (drop old_idx old_lines))
                  target_old_idx 0 rest))"
| "hunk_body old_lines out old_idx hunk_lines [] =
     (if hunk_lines = 0 then Inl EmptyHunkBody else hunks old_lines out old_idx [])"
| "hunk_body old_lines out old_idx hunk_lines (line # rest) =
     (if startswith line (lit ''@@'') then
        (if hunk_lines = 0 then Inl EmptyHunkBody else hunks old_lines out old_idx (line # rest))
      else if startswith line [BSL] then hunk_body old_lines out old_idx hunk_lines rest
      else if startswith line (lit '' '') then
        (if old_idx \<ge> length old_lines then Inl ContextEOF
         else if old_lines ! old_idx \<noteq> drop 1 line then Inl ContextMismatch
         else hunk_body old_lines (out @ [old_lines ! old_idx]) (old_idx + 1)
                (hunk_lines + 1) rest)
      else if startswith line (lit ''-'') then
        (if old_idx \<ge> length old_lines then Inl DeleteEOF
         else if old_lines ! old_idx \<noteq> drop 1 line then Inl DeleteMismatch
         else hunk_body old_lines out (old_idx + 1) (hunk_lines + 1) rest)
      else if startswith line (lit ''+'') then
        hunk_body old_lines (out @ [drop 1 line]) old_idx (hunk_lines + 1) rest
      else Inl (InvalidHunkLine (take 80 line)))"

definition apply_unified_diff :: "str \<Rightarrow> str \<Rightarrow> PatchApplyError + str" where
  "apply_unified_diff old diff =
     (let old_lines = splitlines_keepends old;
          lines = dropWhile (\<lambda>l. \<not> startswith l (lit ''@@'')) (splitlines_keepends diff)
      in if lines = [] then Inl NoHunksFound else hunks old_lines [] 0 lines)"

section \<open>Diff normalisation and the empty-file validator (tools/coder.py)\<close>

text \<open>\<open>_maybe_unescape_llm_string\<close>: the argument is a \<open>str\<close> throughout the model.\<close>

definition maybe_unescape_llm_string :: "str \<Rightarrow> str" where
  "maybe_unescape_llm_string s =
     (if s = [] then s
      else if contains s (BSL # lit ''n'') \<and> \<not> contains s [LF] then
        (let s2 = replace s (BSL # lit ''r'' @ BSL # lit ''n'') [LF];
             s2 = replace s2 (BSL # lit ''n'') [LF];
             s2 = replace s2 (BSL # lit ''r'') [CR];
             s2 = replace s2 (BSL # lit ''t'') [TAB];
             s2 = replace (replace s2 [BSL, 34] [34]) [BSL, 39] [39];
             s2 = replace s2 [BSL, BSL] [BSL]
         in s2)
      else s)"

text \<open>
  \<open>_HUNK_INLINE_OP_RE\<close> is \<^verbatim>\<open>^(@@.*@@)\s+([+\- ].*)$\<close>, matched against one line
  that holds no LF. \<open>op_tail\<close> matches \<^verbatim>\<open>\s+([+\- ].*)$\<close> against what follows group
  1 and returns group 2: \<open>\s+\<close> is greedy, so it takes the whole run of white space
  when a \<open>+\<close> or \<open>-\<close> follows the run, and otherwise gives back characters down to the
  last blank (U+0020) of the run that still leaves one white-space character before it.
\<close>

definition op_tail :: "str \<Rightarrow> str option" where
  "op_tail rem =
     (let w = length (takeWhile is_space rem) in
      if 1 \<le> w \<and> w < length rem \<and> (rem ! w = 43 \<or> rem ! w = 45) then Some (drop w rem)
      else (case filter (\<lambda>k. rem ! k = 32) (rev [1..<w]) of
              [] \<Rightarrow> None
            | k # _ \<Rightarrow> Some (drop k rem)))"

text \<open>
  Group 1 is greedy as well: it ends at the last \<open>@@\<close> (not overlapping the leading
  one) after which \<open>op_tail\<close> matches. \<open>inline_from e\<close> tries the end positions from
  \<open>e\<close> downwards.
\<close>

fun inline_from :: "str \<Rightarrow> nat \<Rightarrow> (str \<times> str) option" where
  "inline_from line 0 = None"
| "inline_from line (Suc e) =
     (if 4 \<le> Suc e \<and> take 2 (drop (Suc e - 2) line) = lit ''@@'' then
        (case op_tail (drop (Suc e) line) of
           Some g2 \<Rightarrow> Some (take (Suc e) line, g2)
         | None \<Rightarrow> inline_from line e)
      else inline_from line e)"

definition hunk_inline_op_match :: "str \<Rightarrow> (str \<times> str) option" where
  "hunk_inline_op_match line =
     (if startswith line (lit ''@@'') then inline_from line (length line) else None)"

definition NOISE_PREFIXES :: "str list" where
  "NOISE_PREFIXES = [lit ''diff --git '', lit ''index '', lit ''--- '', lit ''+++ '']"

definition is_noise :: "str \<Rightarrow> bool" where
  "is_noise raw_line = list_ex (startswith raw_line) NOISE_PREFIXES"

text \<open>The loop body of \<open>_normalize_unified_diff\<close>: what one raw line adds to \<open>out\<close>.\<close>

definition normalize_line :: "str \<Rightarrow> str list" where
  "normalize_line raw_line =
     (if is_noise raw_line then []
      else (case hunk_inline_op_match raw_line of
              Some (g1, g2) \<Rightarrow> [g1, g2]
            | None \<Rightarrow> [raw_line]))"

definition normalize_unified_diff :: "str \<Rightarrow> str" where
  "normalize_unified_diff diff =
     (let diff = replace (replace diff [CR, LF] [LF]) [CR] [LF];
          out = concat (map normalize_line (split_on LF diff));
          norm = join [LF] out
      in if \<not> endswith norm [LF] then norm @ [LF] else norm)"

text \<open>
  \<open>_validate_diff_for_empty_old\<close>: the loop over the lines with its two flags, then
  the checks after the loop.
\<close>

fun validate_loop :: "bool \<Rightarrow> bool \<Rightarrow> str list \<Rightarrow> bool \<times> str" where
  "validate_loop in_hunk saw_plus [] =
     (if in_hunk \<and> \<not> saw_plus then (False, lit ''empty_hunk'')
      else if \<not> in_hunk then (False, lit ''no_hunks'')
      else (True, []))"
| "validate_loop in_hunk saw_plus (line # rest) =
     (if startswith line (lit ''@@'') then validate_loop True saw_plus rest
      else if \<not> in_hunk then validate_loop in_hunk saw_plus rest
      else if startswith line [BSL] \<or> line = [] then validate_loop in_hunk saw_plus rest
      else if startswith line (lit '' '') then (False, lit ''context_lines'')
      else if startswith line (lit ''-'') then (False, lit ''deletions'')
      else if startswith line (lit ''+'') then validate_loop in_hunk True rest
      else (False, lit ''invalid_line''))"

definition validate_diff_for_empty_old :: "str \<Rightarrow> bool \<times> str" where
  "validate_diff_for_empty_old diff = validate_loop False False (splitlines diff)"

section \<open>Sequence matching (the standard library's difflib, as the guards and the patch builder call it)\<close>

text \<open>
  \<open>difflib.SequenceMatcher(None, a, b)\<close>: no junk predicate, \<open>autojunk\<close> on. \<open>b2j\<close>
  maps an element to the ascending indices at which it occurs in \<open>b\<close>; when \<open>b\<close> has 200
  elements or more, an element occurring more than \<open>n // 100 + 1\<close> times is popular and
  has no entry.
\<close>

definition b2j :: "'a list \<Rightarrow> 'a \<Rightarrow> nat list" where
  "b2j b elt =
     (let idxs = filter (\<lambda>j. b ! j = elt) [0..<length b]; n = length b
      in if 200 \<le> n \<and> n div 100 + 1 < length idxs then [] else idxs)"

text \<open>\<open>j2len.get(j - 1, 0)\<close>; the key \<open>-1\<close> is never present.\<close>

definition j2len_get :: "(nat \<times> nat) list \<Rightarrow> nat \<Rightarrow> nat" where
  "j2len_get j2len j =
     (if j = 0 then 0 else (case map_of j2len (j - 1) of None \<Rightarrow> 0 | Some v \<Rightarrow> v))"

text \<open>
  The inner loop of \<open>find_longest_match\<close> for one \<open>i\<close>, over the indices \<open>j\<close> of
  \<open>b2j[a[i]]\<close>; the best match so far is \<open>(besti, bestj, bestsize)\<close>.
\<close>

fun row_loop ::
  "(nat \<times> nat) list \<Rightarrow> nat \<Rightarrow> nat \<Rightarrow> nat \<Rightarrow> nat list \<Rightarrow> (nat \<times> nat) list \<Rightarrow> nat \<times> nat \<times> nat
   \<Rightarrow> (nat \<times> nat) list \<times> (nat \<times> nat \<times> nat)" where
  "row_loop j2len i blo bhi [] newj2len best = (newj2len, best)"
| "row_loop j2len i blo bhi (j # js) newj2len best =
     (if j < blo then row_loop j2len i blo bhi js newj2len best
      else if bhi \<le> j then (newj2len, best)
      else (let k = j2len_get j2len j + 1
            in row_loop j2len i blo bhi js ((j, k) # newj2len)
                 (if snd (snd best) < k then (i + 1 - k, j + 1 - k, k) else best)))"

text \<open>The outer loop, over \<open>i\<close> in \<open>range(alo, ahi)\<close>.\<close>

fun dp_loop ::
  "'a list \<Rightarrow> 'a list \<Rightarrow> nat \<Rightarrow> nat \<Rightarrow> nat list \<Rightarrow> (nat \<times> nat) list \<Rightarrow> nat \<times> nat \<times> nat
   \<Rightarrow> nat \<times> nat \<times> nat" where
  "dp_loop a b blo bhi [] j2len best = best"
| "dp_loop a b blo bhi (i # is) j2len best =
     (case row_loop j2len i blo bhi (b2j b (a ! i)) [] best of
        (newj2len, best') \<Rightarrow> dp_loop a b blo bhi is newj2len best')"

text \<open>
  The two loops that extend the match over equal elements on both sides. (The two
  further loops of the library extend it over junk, and there is none.)
\<close>

fun extend_left :: "'a list \<Rightarrow> 'a list \<Rightarrow> nat \<Rightarrow> nat \<Rightarrow> nat \<Rightarrow> nat \<Rightarrow> nat \<Rightarrow> nat \<times> nat \<times> nat" where
  "extend_left a b alo blo 0 bestj bestsize = (0, bestj, bestsize)"
| "extend_left a b alo blo (Suc i) bestj bestsize =
     (if alo < Suc i \<and> blo < bestj \<and> a ! i = b ! (bestj - 1)
      then extend_left a b alo blo i (bestj - 1) (bestsize + 1)
      else (Suc i, bestj, bestsize))"

function extend_right :: "'a list \<Rightarrow> 'a list \<Rightarrow> nat \<Rightarrow> nat \<Rightarrow> nat \<Rightarrow> nat \<Rightarrow> nat \<Rightarrow> nat \<times> nat \<times> nat" where
  "extend_right a b ahi bhi besti bestj bestsize =
     (if besti + bestsize < ahi \<and> bestj + bestsize < bhi \<and>
         a ! (besti + bestsize) = b ! (bestj + bestsize)
      then extend_right a b ahi bhi besti bestj (bestsize + 1)
      else (besti, bestj, bestsize))"
  by pat_completeness auto
termination
  by (relation "measure (\<lambda>(a, b, ahi, bhi, besti, bestj, bestsize). ahi - (besti + bestsize))") auto

declare extend_right.simps [simp del]

definition find_longest_match :: "'a list \<Rightarrow> 'a list \<Rightarrow> nat \<Rightarrow> nat \<Rightarrow> nat \<Rightarrow> nat \<Rightarrow> nat \<times> nat \<times> nat" where
  "find_longest_match a b alo ahi blo bhi =
     (case dp_loop a b blo bhi [alo..<ahi] [] (alo, blo, 0) of
        (besti, bestj, bestsize) \<Rightarrow>
          (case extend_left a b alo blo besti bestj bestsize of
             (besti, bestj, bestsize) \<Rightarrow> extend_right a b ahi bhi besti bestj bestsize))"

subsection \<open>A match lies inside the range it was asked for\<close>

lemma row_loop_bounds:
  assumes "row_loop j2len i blo bhi js new best = (new', best')"
    and "\<forall>(j, v) \<in> set j2len. v \<le> i - alo"
    and "\<forall>(j, v) \<in> set new. v \<le> i + 1 - alo"
    and "alo \<le> fst best" and "fst best + snd (snd best) \<le> i + 1" and "alo \<le> i"
  shows "(\<forall>(j, v) \<in> set new'. v \<le> i + 1 - alo) \<and> alo \<le> fst best' \<and>
         fst best' + snd (snd best') \<le> i + 1"
  using assms
proof (induction js arbitrary: new best)
  case Nil
  then show ?case by simp
next
  case (Cons j js)
  have get: "j2len_get j2len j \<le> i - alo"
    using Cons.prems(2) by (auto simp: j2len_get_def split: option.splits dest!: map_of_SomeD)
  show ?case
  proof (cases "j < blo")
    case True
    with Cons show ?thesis by simp
  next
    case nlo: False
    show ?thesis
    proof (cases "bhi \<le> j")
      case True
      with nlo Cons.prems show ?thesis by simp
    next
      case False
      let ?k = "j2len_get j2len j + 1"
      let ?best = "if snd (snd best) < ?k then (i + 1 - ?k, j + 1 - ?k, ?k) else best"
      have step: "row_loop j2len i blo bhi js ((j, ?k) # new) ?best = (new', best')"
        using Cons.prems(1) nlo False by (auto simp: Let_def split: if_splits)
      have "\<forall>(j, v) \<in> set ((j, ?k) # new). v \<le> i + 1 - alo"
        using Cons.prems(3) get \<open>alo \<le> i\<close> by auto
      moreover have "alo \<le> fst ?best" using Cons.prems(4) get \<open>alo \<le> i\<close> by auto
      moreover have "fst ?best + snd (snd ?best) \<le> i + 1"
        using Cons.prems(5) get \<open>alo \<le> i\<close> by auto
      ultimately show ?thesis
        using Cons.IH [OF step Cons.prems(2)] \<open>alo \<le> i\<close> by blast
    qed
  qed
qed

lemma dp_loop_bounds:
  assumes "dp_loop a b blo bhi [i..<ahi] j2len best = best'"
    and "\<forall>(j, v) \<in> set j2len. v \<le> i - alo"
    and "alo \<le> fst best" and "fst best + snd (snd best) \<le> i" and "alo \<le> i"
  shows "alo \<le> fst best' \<and> fst best' + snd (snd best') \<le> max i ahi"
  using assms
proof (induction "ahi - i" arbitrary: i j2len best)
  case 0
  then show ?case by simp
next
  case (Suc n)
  then have lt: "i < ahi" by simp
  obtain new bst where row: "row_loop j2len i blo bhi (b2j b (a ! i)) [] best = (new, bst)"
    by (cases "row_loop j2len i blo bhi (b2j b (a ! i)) [] best") auto
  have rb: "(\<forall>(j, v) \<in> set new. v \<le> i + 1 - alo) \<and> alo \<le> fst bst \<and>
            fst bst + snd (snd bst) \<le> i + 1"
    using row_loop_bounds [OF row Suc.prems(2) _ Suc.prems(3) _ Suc.prems(5)] Suc.prems(4)
    by simp
  have rest: "dp_loop a b blo bhi [Suc i..<ahi] new bst = best'"
    using Suc.prems(1) lt row by (simp add: upt_conv_Cons)
  have "n = ahi - Suc i" using Suc.hyps(2) by simp
  from Suc.hyps(1) [OF this rest] rb Suc.prems(5) lt
  show ?case by (auto simp: max_def)
qed

lemma extend_left_bounds:
  "extend_left a b alo blo i j k = (i', j', k') \<Longrightarrow> alo \<le> i \<Longrightarrow> alo \<le> i' \<and> i' + k' = i + k"
  by (induction a b alo blo i j k rule: extend_left.induct) (auto split: if_splits)

lemma extend_right_bounds:
  "extend_right a b ahi bhi i j k = (i', j', k') \<Longrightarrow> i' = i \<and> i' + k' \<le> max (i + k) ahi"
proof (induction a b ahi bhi i j k rule: extend_right.induct)
  case (1 a b ahi bhi besti bestj bestsize)
  then show ?case
    by (subst (asm) (2) extend_right.simps) (auto split: if_splits simp: max_def)
qed

lemma find_longest_match_bounds:
  assumes "find_longest_match a b alo ahi blo bhi = (i, j, k)"
  shows "alo \<le> i \<and> i + k \<le> max alo ahi"
proof -
  obtain i1 j1 k1 where dp: "dp_loop a b blo bhi [alo..<ahi] [] (alo, blo, 0) = (i1, j1, k1)"
    by (cases "dp_loop a b blo bhi [alo..<ahi] [] (alo, blo, 0)") auto
  obtain i2 j2 k2 where el: "extend_left a b alo blo i1 j1 k1 = (i2, j2, k2)"
    by (cases "extend_left a b alo blo i1 j1 k1") auto
  have er: "extend_right a b ahi bhi i2 j2 k2 = (i, j, k)"
    using assms dp el by (simp add: find_longest_match_def)
  have "alo \<le> i1 \<and> i1 + k1 \<le> max alo ahi"
    using dp_loop_bounds [OF dp, of alo] by simp
  with extend_left_bounds [OF el] have "alo \<le> i2 \<and> i2 + k2 \<le> max alo ahi" by simp
  with extend_right_bounds [OF er] show ?thesis by (auto simp: max_def)
qed

lemma find_longest_match_nonempty:
  "find_longest_match a b alo ahi blo bhi = (i, j, k) \<Longrightarrow> k \<noteq> 0 \<Longrightarrow> alo \<le> i \<and> i < ahi"
  using find_longest_match_bounds [of a b alo ahi blo bhi i j k]
  by (auto simp: max_def split: if_splits)

subsection \<open>Matching blocks, ratio, opcodes\<close>

text \<open>
  The loop of \<open>get_matching_blocks\<close>: \<open>queue\<close> is used as a stack (its head is the
  element \<open>queue.pop()\<close> takes), \<open>acc\<close> is \<open>matching_blocks\<close>.
\<close>

function mb_loop ::
  "'a list \<Rightarrow> 'a list \<Rightarrow> (nat \<times> nat \<times> nat \<times> nat) list \<Rightarrow> (nat \<times> nat \<times> nat) list
   \<Rightarrow> (nat \<times> nat \<times> nat) list" where
  "mb_loop a b [] acc = acc"
| "mb_loop a b ((alo, ahi, blo, bhi) # queue) acc =
     (case find_longest_match a b alo ahi blo bhi of
        (i, j, k) \<Rightarrow>
          if k \<noteq> 0 then
            mb_loop a b
              ((if i + k < ahi \<and> j + k < bhi then [(i + k, ahi, j + k, bhi)] else []) @
               (if alo < i \<and> blo < j then [(alo, i, blo, j)] else []) @ queue)
              (acc @ [(i, j, k)])
          else mb_loop a b queue acc)"
  by pat_completeness auto
termination
  by (relation "measure (\<lambda>(a, b, queue, acc). \<Sum>(alo, ahi, blo, bhi) \<leftarrow> queue. 2 * (ahi - alo) + 1)")
     (auto dest!: find_longest_match_nonempty [OF sym])

text \<open>After the loop: sort, merge adjacent blocks, append the sentinel.\<close>

fun collapse :: "nat \<times> nat \<times> nat \<Rightarrow> (nat \<times> nat \<times> nat) list \<Rightarrow> (nat \<times> nat \<times> nat) list" where
  "collapse (i1, j1, k1) [] = (if k1 \<noteq> 0 then [(i1, j1, k1)] else [])"
| "collapse (i1, j1, k1) ((i2, j2, k2) # rest) =
     (if i1 + k1 = i2 \<and> j1 + k1 = j2 then collapse (i1, j1, k1 + k2) rest
      else (if k1 \<noteq> 0 then [(i1, j1, k1)] else []) @ collapse (i2, j2, k2) rest)"

definition get_matching_blocks :: "'a list \<Rightarrow> 'a list \<Rightarrow> (nat \<times> nat \<times> nat) list" where
  "get_matching_blocks a b =
     collapse (0, 0, 0) (sort (mb_loop a b [(0, length a, 0, length b)] []))
       @ [(length a, length b, 0)]"

text \<open>
  \<open>ratio()\<close> is \<open>2.0 * matches / length\<close>, or \<open>1.0\<close> for two empty sequences. The
  quotient is kept exact here; the source holds it in a double, whose comparison with
  the literals 0.90 and 0.20 gives the same answer as the exact one for any sequences
  that fit in memory.
\<close>

definition ratio :: "'a list \<Rightarrow> 'a list \<Rightarrow> rat" where
  "ratio a b =
     (let matches = sum_list (map (\<lambda>(i, j, k). k) (get_matching_blocks a b));
          len = length a + length b
      in if len \<noteq> 0 then 2 * of_nat matches / of_nat len else 1)"

datatype tag = Replace | Delete | Insert | Equal

type_synonym opcode = "tag \<times> nat \<times> nat \<times> nat \<times> nat"

fun opcodes_loop :: "nat \<Rightarrow> nat \<Rightarrow> (nat \<times> nat \<times> nat) list \<Rightarrow> opcode list" where
  "opcodes_loop i j [] = []"
| "opcodes_loop i j ((ai, bj, sz) # blocks) =
     (if i < ai \<and> j < bj then [(Replace, i, ai, j, bj)]
      else if i < ai then [(Delete, i, ai, j, bj)]
      else if j < bj then [(Insert, i, ai, j, bj)]
      else [])
     @ (if sz \<noteq> 0 then [(Equal, ai, ai + sz, bj, bj + sz)] else [])
     @ opcodes_loop (ai + sz) (bj + sz) blocks"

definition get_opcodes :: "'a list \<Rightarrow> 'a list \<Rightarrow> opcode list" where
  "get_opcodes a b = opcodes_loop 0 0 (get_matching_blocks a b)"

text \<open>\<open>get_grouped_opcodes(n)\<close>: the loop with the group \<open>grp\<close> being built, then the generator.\<close>

fun group_loop :: "nat \<Rightarrow> opcode list \<Rightarrow> opcode list \<Rightarrow> opcode list list" where
  "group_loop n [] grp =
     (if grp \<noteq> [] \<and> \<not> (length grp = 1 \<and> fst (hd grp) = Equal) then [grp] else [])"
| "group_loop n ((tag, i1, i2, j1, j2) # codes) grp =
     (if tag = Equal \<and> n + n < i2 - i1
      then (grp @ [(tag, i1, min i2 (i1 + n), j1, min j2 (j1 + n))])
             # group_loop n codes [(tag, max i1 (i2 - n), i2, max j1 (j2 - n), j2)]
      else group_loop n codes (grp @ [(tag, i1, i2, j1, j2)]))"

definition trim_first :: "nat \<Rightarrow> opcode list \<Rightarrow> opcode list" where
  "trim_first n codes =
     (case codes of
        (tag, i1, i2, j1, j2) # rest \<Rightarrow>
          if tag = Equal then (tag, max i1 (i2 - n), i2, max j1 (j2 - n), j2) # rest else codes
      | [] \<Rightarrow> codes)"

definition trim_last :: "nat \<Rightarrow> opcode list \<Rightarrow> opcode list" where
  "trim_last n codes =
     (case rev codes of
        (tag, i1, i2, j1, j2) # rest \<Rightarrow>
          if tag = Equal then rev rest @ [(tag, i1, min i2 (i1 + n), j1, min j2 (j1 + n))]
          else codes
      | [] \<Rightarrow> codes)"

definition get_grouped_opcodes :: "nat \<Rightarrow> 'a list \<Rightarrow> 'a list \<Rightarrow> opcode list list" where
  "get_grouped_opcodes n a b =
     (let codes = get_opcodes a b;
          codes = (if codes = [] then [(Equal, 0, 1, 0, 1)] else codes)
      in group_loop n (trim_last n (trim_first n codes)) [])"

text \<open>\<open>'{}'.format(n)\<close> for a natural number.\<close>

fun str_of_nat :: "nat \<Rightarrow> str" where
  "str_of_nat n = (if n < 10 then [48 + n] else str_of_nat (n div 10) @ [48 + n mod 10])"

declare str_of_nat.simps [simp del]

definition format_range_unified :: "nat \<Rightarrow> nat \<Rightarrow> str" where
  "format_range_unified start stop =
     (let beginning = start + 1; len = stop - start
      in if len = 1 then str_of_nat beginning
         else str_of_nat (if len = 0 then beginning - 1 else beginning)
                @ lit '','' @ str_of_nat len)"

definition slice :: "'a list \<Rightarrow> nat \<Rightarrow> nat \<Rightarrow> 'a list" where
  "slice xs i1 i2 = take (i2 - i1) (drop i1 xs)"

fun group_lines :: "str list \<Rightarrow> str list \<Rightarrow> opcode \<Rightarrow> str list" where
  "group_lines a b (tag, i1, i2, j1, j2) =
     (if tag = Equal then map (\<lambda>line. lit '' '' @ line) (slice a i1 i2)
      else (if tag = Replace \<or> tag = Delete then map (\<lambda>line. lit ''-'' @ line) (slice a i1 i2)
            else [])
         @ (if tag = Replace \<or> tag = Insert then map (\<lambda>line. lit ''+'' @ line) (slice b j1 j2)
            else []))"

definition hunk_lines_of :: "str list \<Rightarrow> str list \<Rightarrow> opcode list \<Rightarrow> str list" where
  "hunk_lines_of a b grp =
     (case (hd grp, last grp) of
        ((_, f1, _, f3, _), (_, _, l2, _, l4)) \<Rightarrow>
          (lit ''@@ -'' @ format_range_unified f1 l2 @ lit '' +'' @ format_range_unified f3 l4
             @ lit '' @@'' @ [LF])
          # concat (map (group_lines a b) grp))"

text \<open>
  \<open>difflib.unified_diff(a, b, fromfile, tofile)\<close> with no dates, three lines of context
  and LF as the line terminator; the lines it yields.
\<close>

definition unified_diff :: "str list \<Rightarrow> str list \<Rightarrow> str \<Rightarrow> str \<Rightarrow> str list" where
  "unified_diff a b fromfile tofile =
     (case get_grouped_opcodes 3 a b of
        [] \<Rightarrow> []
      | groups \<Rightarrow>
          [lit ''--- '' @ fromfile @ [LF], lit ''+++ '' @ tofile @ [LF]]
            @ concat (map (hunk_lines_of a b) groups))"

text \<open>\<open>_make_patch_from_fulltext\<close> (tools/coder.py).\<close>

definition make_patch_from_fulltext :: "str \<Rightarrow> str \<Rightarrow> str \<Rightarrow> str" where
  "make_patch_from_fulltext path old new =
     concat (unified_diff (splitlines_keepends old) (splitlines_keepends new)
               (path @ lit '' (old)'') (path @ lit '' (new)''))"

section \<open>The content guards (diff/guards.py)\<close>

definition has_control_chars :: "str \<Rightarrow> bool" where
  "has_control_chars s = list_ex (\<lambda>c. c < 32 \<and> c \<noteq> LF \<and> c \<noteq> CR \<and> c \<noteq> TAB) s"

definition FUTURE :: str where
  "FUTURE = lit ''from __future__ import''"

definition has_future_import :: "str \<Rightarrow> bool" where
  "has_future_import text = list_ex (\<lambda>line. startswith (lstrip line) FUTURE) (splitlines text)"

definition TRIPLE_DQ :: str where "TRIPLE_DQ = [34, 34, 34]"
definition TRIPLE_SQ :: str where "TRIPLE_SQ = [39, 39, 39]"

text \<open>
  The scan of the allowed prelude is written out four times in the source (once in
  diff/guards.py on the plain lines, three times in tools/coder.py on the lines with
  \<open>_strip_bom_zw\<close> applied first). \<open>pre\<close> is that preprocessing of a line. The scans
  advance an index; the functions here return the lines from that index on.

  First loop: blank lines and comments.
\<close>

definition skip_blank_comments :: "(str \<Rightarrow> str) \<Rightarrow> str list \<Rightarrow> str list" where
  "skip_blank_comments pre lines =
     dropWhile (\<lambda>s. strip (pre s) = [] \<or> startswith (lstrip (pre s)) (lit ''#'')) lines"

text \<open>Then the optional module docstring.\<close>

definition skip_docstring :: "(str \<Rightarrow> str) \<Rightarrow> str list \<Rightarrow> str list" where
  "skip_docstring pre lines =
     (case lines of
        [] \<Rightarrow> []
      | l # rest \<Rightarrow>
          (let s0 = lstrip (pre l) in
           if startswith s0 TRIPLE_DQ \<or> startswith s0 TRIPLE_SQ then
             (let q = (if startswith s0 TRIPLE_DQ then TRIPLE_DQ else TRIPLE_SQ) in
              if 2 \<le> count_sub s0 q then rest
              else (case dropWhile (\<lambda>x. \<not> contains x q) rest of [] \<Rightarrow> [] | _ # r \<Rightarrow> r))
           else lines))"

text \<open>Then blank lines; the line reached must be a future import.\<close>

definition future_at_top :: "(str \<Rightarrow> str) \<Rightarrow> str list \<Rightarrow> bool" where
  "future_at_top pre lines =
     (case dropWhile (\<lambda>s. strip (pre s) = []) (skip_docstring pre (skip_blank_comments pre lines)) of
        [] \<Rightarrow> False
      | l # _ \<Rightarrow> startswith (lstrip (pre l)) FUTURE)"

definition future_import_is_in_allowed_region :: "str \<Rightarrow> bool" where
  "future_import_is_in_allowed_region new = future_at_top (\<lambda>s. s) (splitlines new)"

definition guard_future_import :: "str \<Rightarrow> str \<Rightarrow> bool \<times> str" where
  "guard_future_import old new =
     (if \<not> has_future_import old then (True, [])
      else if \<not> has_future_import new then (False, lit ''future_import_removed'')
      else if \<not> future_import_is_in_allowed_region new then (False, lit ''future_import_moved'')
      else (True, []))"

definition normalize_blank_runs :: "str list \<Rightarrow> str list" where
  "normalize_blank_runs lines =
     fst (foldl (\<lambda>(out, blank_run) line.
            if strip line = [] then (if blank_run + 1 \<le> 1 then out @ [[]] else out, blank_run + 1)
            else (out @ [line], 0)) ([], 0 :: nat) lines)"

definition normalize_for_similarity :: "str \<Rightarrow> str" where
  "normalize_for_similarity s =
     (let s = replace (replace s [CR, LF] [LF]) [CR] [LF];
          lines = map rstrip (splitlines s)
      in strip (join [LF] (normalize_blank_runs lines)))"

definition similarity_ratio :: "str \<Rightarrow> str \<Rightarrow> rat" where
  "similarity_ratio old new =
     ratio (splitlines (normalize_for_similarity old)) (splitlines (normalize_for_similarity new))"

definition rewrite_keywords :: "str list" where
  "rewrite_keywords = [lit ''rewrite'', lit ''refactor'', lit ''reformat'', lit ''format'',
     lit ''overhaul'', lit ''replace'', lit ''full'', lit ''cleanup'', lit ''clean up'',
     lit ''modernize'']"

definition allow_big_rewrite :: "str \<Rightarrow> bool" where
  "allow_big_rewrite instruction = list_ex (contains (lower instruction)) rewrite_keywords"

text \<open>
  \<open>Path(relpath).name\<close>: the last component of the path once the empty and the \<open>.\<close>
  components are dropped, or the empty string when none is left.
\<close>

definition path_parts :: "str \<Rightarrow> str list" where
  "path_parts p = filter (\<lambda>c. c \<noteq> [] \<and> c \<noteq> lit ''.'') (split_on 47 p)"

definition path_name :: "str \<Rightarrow> str" where
  "path_name p = (case rev (path_parts p) of [] \<Rightarrow> [] | c # _ \<Rightarrow> c)"

text \<open>
  What a guard answers: \<open>(ok, why)\<close>. The message of the rewrite guard formats the
  ratio (a double) with two decimals; the value keeps the ratio itself.
\<close>

datatype guard_why =
    Pass
  | GuardControlChars
  | GuardFuture str
  | ReadmeRewriteBlocked
  | RewriteTooViolent rat

text \<open>The fixed text of each answer.\<close>

fun guard_text :: "guard_why \<Rightarrow> str" where
  "guard_text Pass = []"
| "guard_text GuardControlChars = lit ''guard: control_chars''"
| "guard_text (GuardFuture why_fut) = lit ''guard: '' @ why_fut"
| "guard_text ReadmeRewriteBlocked = lit ''guard: README rewrite blocked''"
| "guard_text (RewriteTooViolent r) = lit ''guard: rewrite too violent (similarity=''"

definition enforce_guards :: "str \<Rightarrow> str \<Rightarrow> str \<Rightarrow> str \<Rightarrow> bool \<times> guard_why" where
  "enforce_guards relpath instruction old new =
     (if has_control_chars new then (False, GuardControlChars)
      else if old = new then (True, Pass)
      else (case guard_future_import old new of
        (ok_fut, why_fut) \<Rightarrow>
          if \<not> ok_fut then (False, GuardFuture why_fut)
          else (let ratio = similarity_ratio old new;
                    is_readme = (lower (path_name relpath) = lit ''readme.md'')
                in if is_readme \<and> \<not> allow_big_rewrite instruction \<and> ratio < 9 / 10
                   then (False, ReadmeRewriteBlocked)
                   else if \<not> allow_big_rewrite instruction \<and> ratio < 2 / 10
                   then (False, RewriteTooViolent ratio)
                   else (True, Pass))))"

section \<open>Path safety, the future-import guard and its autofix (tools/coder.py)\<close>

text \<open>
  A \<open>Path\<close> is the list of its components. \<open>Path.resolve\<close> asks the file system (it
  follows symbolic links), so it is a parameter: \<open>None\<close> when the call raises.
\<close>

type_synonym path = "str list"

datatype exn = ValueError str | OSError | IsADirectoryError | UnicodeEncodeError

text \<open>
  \<open>root / rel\<close>: the components of a relative \<open>rel\<close> follow those of \<open>root\<close>; an
  absolute \<open>rel\<close> replaces \<open>root\<close>.
\<close>

definition joinpath :: "path \<Rightarrow> str \<Rightarrow> path" where
  "joinpath rootp rel = (if startswith rel (lit ''/'') then path_parts rel else rootp @ path_parts rel)"

definition resolve_repo_path :: "(path \<Rightarrow> path option) \<Rightarrow> path \<Rightarrow> str \<Rightarrow> exn + path" where
  "resolve_repo_path resolve rootp rel =
     (if rel = [] \<or> startswith rel (lit ''/'') \<or> startswith rel (lit ''~'')
      then Inl (ValueError (lit ''invalid_path''))
      else (case resolve (joinpath rootp rel) of
        None \<Rightarrow> Inl OSError
      | Some p \<Rightarrow>
          (case resolve rootp of
             None \<Rightarrow> Inl OSError
           | Some r \<Rightarrow> if prefix r p then Inr p else Inl (ValueError (lit ''path_escape'')))))"

definition strip_bom_zw :: "str \<Rightarrow> str" where
  "strip_bom_zw s = dropWhile (\<lambda>c. c = 65279 \<or> c = 8203) s"

definition is_future_line :: "str \<Rightarrow> bool" where
  "is_future_line line = startswith (lstrip (strip_bom_zw line)) FUTURE"

definition future_import_guard :: "str \<Rightarrow> str \<Rightarrow> bool \<times> str" where
  "future_import_guard old new =
     (if \<not> list_ex (\<lambda>l. startswith (lstrip l) FUTURE) (splitlines old) then (True, [])
      else (let new_lines = splitlines new;
                new_future_idxs = filter (\<lambda>idx. is_future_line (new_lines ! idx)) [0..<length new_lines]
            in if new_future_idxs = [] then (False, lit ''future_import_removed'')
               else if \<not> future_at_top strip_bom_zw new_lines then (False, lit ''future_import_moved'')
               else (True, [])))"

text \<open>
  The index the autofix inserts at: past the blank lines, the comments and the
  docstring of \<open>rest\<close>.
\<close>

definition prelude_index :: "str list \<Rightarrow> nat" where
  "prelude_index rest =
     length rest - length (skip_docstring strip_bom_zw (skip_blank_comments strip_bom_zw rest))"

definition splice_checked :: "str \<Rightarrow> str \<Rightarrow> str list \<Rightarrow> str list \<Rightarrow> str" where
  "splice_checked old new rest future_lines =
     (let i = prelude_index rest;
          fixed = concat (take i rest @ future_lines @ drop i rest)
      in if fst (future_import_guard old fixed) then fixed else new)"

definition autofix_future_import :: "str \<Rightarrow> str \<Rightarrow> str" where
  "autofix_future_import old new =
     (let old_lines = splitlines_keepends old;
          old_future = map (\<lambda>line. lstrip (strip_bom_zw line)) (filter is_future_line old_lines)
      in if old_future = [] then new
         else (let new_lines = splitlines_keepends new in
           if new_lines = [] then new
           else (let fut_idx = filter (\<lambda>i. is_future_line (new_lines ! i)) [0..<length new_lines] in
             if fut_idx = [] then splice_checked old new new_lines old_future
             else (case future_import_guard old new of
               (ok, why) \<Rightarrow>
                 if ok then new
                 else if why \<noteq> lit ''future_import_moved'' then new
                 else (let fut_lines = map (\<lambda>i. lstrip (strip_bom_zw (new_lines ! i))) fut_idx;
                           rest = map (\<lambda>j. new_lines ! j)
                                    (filter (\<lambda>j. j \<notin> set fut_idx) [0..<length new_lines])
                       in splice_checked old new rest fut_lines)))))"

text \<open>\<open>compile(content, path, "exec")\<close> is the interpreter's; \<open>compiles\<close> stands for it.\<close>

definition py_syntax_ok :: "(str \<Rightarrow> bool) \<Rightarrow> str \<Rightarrow> str \<Rightarrow> bool" where
  "py_syntax_ok compiles path content = (if \<not> endswith path (lit ''.py'') then True else compiles content)"

definition ensure_display_diff :: "str \<Rightarrow> str \<Rightarrow> str" where
  "ensure_display_diff path patch_hunks_only =
     (let p = patch_hunks_only in
      if \<not> contains p (lit ''@@'') then p
      else if startswith (lstrip p) (lit ''--- '') then (if endswith p [LF] then p else p @ [LF])
      else (let out = lit ''--- a/'' @ path @ [LF] @ lit ''+++ b/'' @ path @ [LF] @ p
            in if endswith out [LF] then out else out @ [LF]))"

section \<open>Finalize and the apply handler (tools/coder.py)\<close>

text \<open>
  The result dictionaries. \<open>detail\<close> is a string in the source; here it keeps the value
  the string is built from.
\<close>

datatype detail = DetailText str | DetailGuard guard_why | DetailApply PatchApplyError

datatype plan_result =
    PlanOk (plan_file: str) (plan_patch: str) (plan_diff: str)
  | PlanErr (plan_error: str) (plan_detail: "detail option") (err_patch: "str option")
      (err_file: "str option")

definition finalize_ok :: "(str \<Rightarrow> bool) \<Rightarrow> str \<Rightarrow> str \<Rightarrow> str \<Rightarrow> str \<Rightarrow> str \<Rightarrow> plan_result" where
  "finalize_ok compiles path instruction old new patch =
     (let new2 = autofix_future_import old new in
      if \<not> py_syntax_ok compiles path new2 then
        (case future_import_guard old new2 of
           (okf, whyf) \<Rightarrow>
             if \<not> okf then PlanErr (lit ''guard_blocked'') (Some (DetailText whyf)) (Some patch) None
             else PlanErr (lit ''guard_blocked'') (Some (DetailText (lit ''syntax_error_after_edit'')))
                    (Some patch) None)
      else (case enforce_guards path instruction old new2 of
        (ok, why) \<Rightarrow>
          if \<not> ok then PlanErr (lit ''guard_blocked'') (Some (DetailGuard why)) (Some patch) None
          else if new2 \<noteq> new then
            (let patch2 = make_patch_from_fulltext path old new2
             in PlanOk path patch2 (ensure_display_diff path patch2))
          else PlanOk path patch (ensure_display_diff path patch)))"

text \<open>
  The file system: a regular file holds its text (as \<open>read_text\<close> with
  \<open>errors="replace"\<close> decodes it). \<open>resolve\<close>, \<open>compiles\<close> and \<open>git_add\<close> are the
  collaborators outside the program: the canonicalisation of a path, the interpreter's
  \<open>compile\<close>, and \<open>git -C root add -- path\<close> with its return code and output.
\<close>

datatype node = File str | Dir

type_synonym fs = "path \<rightharpoonup> node"

record env =
  resolve :: "path \<Rightarrow> path option"
  compiles :: "str \<Rightarrow> bool"
  git_add :: "path \<Rightarrow> str \<Rightarrow> int \<times> str"

datatype apply_result =
    ApplyOk (apply_file: str) (written: bool) (staged: bool)
  | ApplyErr (apply_error: str) (apply_detail: "detail option") (apply_err_file: "str option")

datatype outcome = Raised exn | Returned apply_result

text \<open>
  \<open>_backup_file\<close>: the sibling \<open>name.shellgeist.bak\<close> receives the current text; any
  failure is swallowed (here: the sibling is a directory).
\<close>

definition backup_file :: "fs \<Rightarrow> path \<Rightarrow> fs" where
  "backup_file files p =
     (let bak = butlast p @ [last p @ lit ''.shellgeist.bak''] in
      case (files p, files bak) of
        (Some (File content), Some Dir) \<Rightarrow> files
      | (Some (File content), _) \<Rightarrow> files(bak \<mapsto> File content)
      | _ \<Rightarrow> files)"

text \<open>
  \<open>_atomic_write_text\<close>: the text goes to a temporary file beside the target, strictly
  encoded as UTF-8 (a lone surrogate raises), and the temporary file is renamed onto the
  target (a directory there raises). The temporary file is gone in every case.
\<close>

definition encodable :: "str \<Rightarrow> bool" where
  "encodable content = list_all (\<lambda>c. c < 55296 \<or> 57343 < c) content"

definition atomic_write_text :: "fs \<Rightarrow> path \<Rightarrow> str \<Rightarrow> exn + fs" where
  "atomic_write_text files p content =
     (if \<not> encodable content then Inl UnicodeEncodeError
      else if files p = Some Dir then Inl IsADirectoryError
      else Inr (files(p \<mapsto> File content)))"

text \<open>
  \<open>apply_edit\<close> in three parts, in the order of the source: \<open>validate_edit\<close> is the
  run of checks from the normalised patch to the last guard and answers with the
  dictionary of the first failed check or with the new text; \<open>commit_edit\<close> is the tail
  that writes; \<open>apply_edit\<close> is the head (path, existence, \<open>@@\<close>, reading the file)
  and puts them together.
\<close>

definition validate_edit :: "env \<Rightarrow> str \<Rightarrow> str \<Rightarrow> str \<Rightarrow> str \<Rightarrow> apply_result + str" where
  "validate_edit e path instruction old patch =
     (if old = [] \<and> \<not> fst (validate_diff_for_empty_old patch) then
        Inl (ApplyErr (lit ''bad_patch_empty_old'')
               (Some (DetailText (snd (validate_diff_for_empty_old patch)))) None)
      else case apply_unified_diff old patch of
        Inl err \<Rightarrow> Inl (ApplyErr (lit ''patch_apply_failed'') (Some (DetailApply err)) None)
      | Inr new0 \<Rightarrow>
          (let new = autofix_future_import old new0 in
           if \<not> py_syntax_ok (compiles e) path new then
             (if \<not> fst (future_import_guard old new)
              then Inl (ApplyErr (lit ''guard_blocked'')
                          (Some (DetailText (snd (future_import_guard old new)))) None)
              else Inl (ApplyErr (lit ''guard_blocked'')
                          (Some (DetailText (lit ''syntax_error_after_edit''))) None))
           else if \<not> fst (enforce_guards path (if instruction = [] then lit ''apply'' else instruction)
                            old new)
           then Inl (ApplyErr (lit ''guard_blocked'')
                       (Some (DetailGuard (snd (enforce_guards path
                          (if instruction = [] then lit ''apply'' else instruction) old new)))) None)
           else if \<not> fst (future_import_guard old new)
           then Inl (ApplyErr (lit ''guard_blocked'')
                       (Some (DetailText (snd (future_import_guard old new)))) None)
           else Inr new))"

definition commit_edit ::
  "env \<Rightarrow> fs \<Rightarrow> str \<Rightarrow> path \<Rightarrow> path \<Rightarrow> str \<Rightarrow> bool \<Rightarrow> bool \<Rightarrow> outcome \<times> fs" where
  "commit_edit e files path file_path rootp new stage backup =
     (let files1 = (if backup then backup_file files file_path else files) in
      case atomic_write_text files1 file_path new of
        Inl err \<Rightarrow> (Raised err, files1)
      | Inr files2 \<Rightarrow>
          if stage then
            (if fst (git_add e rootp path) \<noteq> 0
             then (Returned (ApplyErr (lit ''git_add_failed'')
                     (Some (DetailText (take 8000 (snd (git_add e rootp path))))) None), files2)
             else (Returned (ApplyOk path True True), files2))
          else (Returned (ApplyOk path True False), files2))"

definition apply_edit ::
  "env \<Rightarrow> fs \<Rightarrow> str \<Rightarrow> str \<Rightarrow> path \<Rightarrow> str \<Rightarrow> bool \<Rightarrow> bool \<Rightarrow> outcome \<times> fs" where
  "apply_edit e files path patch rootp instruction stage backup =
     (case resolve_repo_path (resolve e) rootp path of
        Inl err \<Rightarrow> (Raised err, files)
      | Inr file_path \<Rightarrow>
          (case files file_path of
             None \<Rightarrow> (Returned (ApplyErr (lit ''file_not_found'') None (Some path)), files)
           | Some entry \<Rightarrow>
               if \<not> contains patch (lit ''@@'')
               then (Returned (ApplyErr (lit ''invalid_patch'') None None), files)
               else (case entry of
                  Dir \<Rightarrow> (Raised IsADirectoryError, files)
                | File old \<Rightarrow>
                    (case validate_edit e path instruction old
                            (normalize_unified_diff (maybe_unescape_llm_string patch)) of
                       Inl failure \<Rightarrow> (Returned failure, files)
                     | Inr new \<Rightarrow> commit_edit e files path file_path rootp new stage backup))))"



section \<open>The JSON salvager (util_json.py)\<close>

abbreviation DQ :: nat where "DQ \<equiv> 34"  \<comment> \<open>the double quote\<close>
abbreviation SQ :: nat where "SQ \<equiv> 39"  \<comment> \<open>the single quote\<close>

subsection \<open>The standard library's JSON decoder, as \<open>json.loads\<close> and \<open>raw_decode\<close> run it\<close>

text \<open>
  A decoded value. An object is the dictionary built from its pairs: a repeated key keeps
  its first place and takes the last value. A number is kept as its literal (Python
  converts it to an \<open>int\<close> or a \<open>float\<close>); \<open>JConstant\<close> is one of \<open>NaN\<close>,
  \<open>Infinity\<close>, \<open>-Infinity\<close>.
\<close>

datatype json =
    JNull
  | JBool bool
  | JNumber str
  | JConstant str
  | JString str
  | JArray "json list"
  | JObject "(str \<times> json) list"

fun dict_set :: "str \<Rightarrow> 'v \<Rightarrow> (str \<times> 'v) list \<Rightarrow> (str \<times> 'v) list" where
  "dict_set k v [] = [(k, v)]"
| "dict_set k v (p # ps) = (if fst p = k then (k, v) # ps else p # dict_set k v ps)"

definition dict_of_pairs :: "(str \<times> 'v) list \<Rightarrow> (str \<times> 'v) list" where
  "dict_of_pairs pairs = foldl (\<lambda>d (k, v). dict_set k v d) [] pairs"

definition is_json_ws :: "nat \<Rightarrow> bool" where
  "is_json_ws c \<longleftrightarrow> c = 32 \<or> c = TAB \<or> c = LF \<or> c = CR"

definition skip_ws :: "str \<Rightarrow> str" where
  "skip_ws s = dropWhile is_json_ws s"

definition hex_value :: "nat \<Rightarrow> nat option" where
  "hex_value c =
     (if 48 \<le> c \<and> c \<le> 57 then Some (c - 48)
      else if 97 \<le> c \<and> c \<le> 102 then Some (c - 87)
      else if 65 \<le> c \<and> c \<le> 70 then Some (c - 55)
      else None)"

text \<open>Four hexadecimal digits at the head of \<open>s\<close>.\<close>

definition decode_uXXXX :: "str \<Rightarrow> nat option" where
  "decode_uXXXX s =
     (case map hex_value (take 4 s) of
        [Some a, Some b, Some c, Some d] \<Rightarrow> Some (((a * 16 + b) * 16 + c) * 16 + d)
      | _ \<Rightarrow> None)"

definition BACKSLASH :: "nat \<Rightarrow> nat option" where
  "BACKSLASH esc =
     (if esc = DQ then Some DQ else if esc = BSL then Some BSL else if esc = 47 then Some 47
      else if esc = 98 then Some 8 else if esc = 102 then Some 12 else if esc = 110 then Some LF
      else if esc = 114 then Some CR else if esc = 116 then Some TAB else None)"

text \<open>
  \<open>scanstring\<close> (strict): \<open>s\<close> starts after the opening quote, \<open>chunks\<close> is the text
  decoded so far; the result is the string and what follows its closing quote.
\<close>

function scanstring :: "str \<Rightarrow> str \<Rightarrow> (str \<times> str) option" where
  "scanstring [] chunks = None"
| "scanstring (c # r) chunks =
     (if c = DQ then Some (chunks, r)
      else if c \<noteq> BSL then (if c < 32 then None else scanstring r (chunks @ [c]))
      else (case r of
          [] \<Rightarrow> None
        | esc # r' \<Rightarrow>
            if esc \<noteq> 117 then
              (case BACKSLASH esc of None \<Rightarrow> None | Some ch \<Rightarrow> scanstring r' (chunks @ [ch]))
            else (case decode_uXXXX r' of
                None \<Rightarrow> None
              | Some uni \<Rightarrow>
                  (case (if 55296 \<le> uni \<and> uni \<le> 56319 \<and> take 2 (drop 4 r') = [BSL, 117]
                         then decode_uXXXX (drop 6 r') else None) of
                     Some uni2 \<Rightarrow>
                       if 56320 \<le> uni2 \<and> uni2 \<le> 57343
                       then scanstring (drop 10 r')
                              (chunks @ [65536 + ((uni - 55296) * 1024 + (uni2 - 56320))])
                       else scanstring (drop 4 r') (chunks @ [uni])
                   | None \<Rightarrow> scanstring (drop 4 r') (chunks @ [uni])))))"
  by pat_completeness auto
termination
  by (relation "measure (\<lambda>(s, chunks). length s)") auto

text \<open>
  The number pattern \<^verbatim>\<open>(-?(?:0|[1-9]\d*))(\.\d+)?([eE][-+]?\d+)?\<close> at the head of \<open>s\<close>,
  on the ASCII digits (as the C scanner has it): the literal and the rest.
\<close>

definition match_digits1 :: "str \<Rightarrow> (str \<times> str) option" where
  "match_digits1 s = (if takeWhile is_digit s = [] then None
                      else Some (takeWhile is_digit s, dropWhile is_digit s))"

definition match_integer :: "str \<Rightarrow> (str \<times> str) option" where
  "match_integer s =
     (let sign = (if startswith s (lit ''-'') then lit ''-'' else []);
          r = drop (length sign) s
      in case r of
           [] \<Rightarrow> None
         | d # r' \<Rightarrow>
             if d = 48 then Some (sign @ [d], r')
             else if 49 \<le> d \<and> d \<le> 57
             then Some (sign @ d # takeWhile is_digit r', dropWhile is_digit r')
             else None)"

definition match_frac :: "str \<Rightarrow> str \<times> str" where
  "match_frac s =
     (if startswith s (lit ''.'') then
        (case match_digits1 (drop 1 s) of None \<Rightarrow> ([], s) | Some (ds, r) \<Rightarrow> (lit ''.'' @ ds, r))
      else ([], s))"

definition match_exp :: "str \<Rightarrow> str \<times> str" where
  "match_exp s =
     (if startswith s (lit ''e'') \<or> startswith s (lit ''E'') then
        (let sign = (if startswith (drop 1 s) (lit ''-'') \<or> startswith (drop 1 s) (lit ''+'')
                     then take 1 (drop 1 s) else [])
         in case match_digits1 (drop (1 + length sign) s) of
              None \<Rightarrow> ([], s)
            | Some (ds, r) \<Rightarrow> (take 1 s @ sign @ ds, r))
      else ([], s))"

definition match_number :: "str \<Rightarrow> (str \<times> str) option" where
  "match_number s =
     (case match_integer s of
        None \<Rightarrow> None
      | Some (integer, r1) \<Rightarrow>
          (case match_frac r1 of
             (frac_part, r2) \<Rightarrow>
               (case match_exp r2 of (exp_part, r3) \<Rightarrow> Some (integer @ frac_part @ exp_part, r3))))"

text \<open>The atoms of \<open>scan_once\<close>: everything but strings, objects and arrays.\<close>

definition scan_atom :: "str \<Rightarrow> (json \<times> str) option" where
  "scan_atom s =
     (if startswith s (lit ''null'') then Some (JNull, drop 4 s)
      else if startswith s (lit ''true'') then Some (JBool True, drop 4 s)
      else if startswith s (lit ''false'') then Some (JBool False, drop 5 s)
      else (case match_number s of
          Some (tok, r) \<Rightarrow> Some (JNumber tok, r)
        | None \<Rightarrow>
            if startswith s (lit ''NaN'') then Some (JConstant (lit ''NaN''), drop 3 s)
            else if startswith s (lit ''Infinity'') then Some (JConstant (lit ''Infinity''), drop 8 s)
            else if startswith s (lit ''-Infinity'') then Some (JConstant (lit ''-Infinity''), drop 9 s)
            else None))"

lemma skip_ws_le: "length (skip_ws s) \<le> length s"
  by (simp add: skip_ws_def length_dropWhile_le)

lemma skip_ws_shorter: "2 * (length (skip_ws r) - k) < Suc (2 * length r)"
  using skip_ws_le [of r] by simp

lemma skip_ws_shorter1: "2 * length (skip_ws r) < Suc (2 * length r)"
  using skip_ws_le [of r] by simp

lemma skip_ws_shorter2: "length b < n \<Longrightarrow> length (skip_ws (drop k (skip_ws b))) - m < n"
proof -
  have "length (skip_ws (drop k (skip_ws b))) \<le> length (drop k (skip_ws b))"
    by (rule skip_ws_le)
  also have "\<dots> \<le> length (skip_ws b)" by simp
  also have "\<dots> \<le> length b" by (rule skip_ws_le)
  finally show "length b < n \<Longrightarrow> ?thesis" by simp
qed

lemma skip_ws_shorter3: "length b < n \<Longrightarrow> length (skip_ws (drop k (skip_ws b))) < n"
  using skip_ws_shorter2 [of b n k 0] by simp

text \<open>
  \<open>scan_once\<close> with the loops of \<open>JSONObject\<close> (\<open>parse_pairs\<close>, entered after the
  opening quote of a key) and of \<open>JSONArray\<close> (\<open>parse_elems\<close>, entered at a value).
  The result is the value and the text after it; \<open>None\<close> is a decoding error. A parser
  called inside another always returns a shorter text; the tests on the lengths say so
  where the recursion needs it (they never fail: \<open>scan_once_shorter\<close> below).
\<close>

function scan_once :: "str \<Rightarrow> (json \<times> str) option"
  and parse_pairs :: "str \<Rightarrow> (str \<times> json) list \<Rightarrow> (json \<times> str) option"
  and parse_elems :: "str \<Rightarrow> json list \<Rightarrow> (json \<times> str) option"
where
  "scan_once [] = None"
| "scan_once (c # r) =
     (if c = DQ then map_option (\<lambda>(t, r'). (JString t, r')) (scanstring r [])
      else if c = 123 then
        (if startswith (skip_ws r) (lit ''}'') then Some (JObject [], drop 1 (skip_ws r))
         else if startswith (skip_ws r) [DQ] then parse_pairs (drop 1 (skip_ws r)) []
         else None)
      else if c = 91 then
        (if startswith (skip_ws r) (lit '']'') then Some (JArray [], drop 1 (skip_ws r))
         else parse_elems (skip_ws r) [])
      else scan_atom (c # r))"
| "parse_pairs s pairs =
     (case scanstring s [] of
        None \<Rightarrow> None
      | Some (key, r1) \<Rightarrow>
          if \<not> startswith (skip_ws r1) (lit '':'') then None
          else if \<not> length (skip_ws (drop 1 (skip_ws r1))) < length s then None
          else (case scan_once (skip_ws (drop 1 (skip_ws r1))) of
              None \<Rightarrow> None
            | Some (v, r4) \<Rightarrow>
                if \<not> length r4 < length s then None
                else if startswith (skip_ws r4) (lit ''}'')
                then Some (JObject (dict_of_pairs (pairs @ [(key, v)])), drop 1 (skip_ws r4))
                else if \<not> startswith (skip_ws r4) (lit '','') then None
                else if \<not> startswith (skip_ws (drop 1 (skip_ws r4))) [DQ] then None
                else parse_pairs (drop 1 (skip_ws (drop 1 (skip_ws r4)))) (pairs @ [(key, v)])))"
| "parse_elems s vals =
     (case scan_once s of
        None \<Rightarrow> None
      | Some (v, r1) \<Rightarrow>
          if \<not> length r1 < length s then None
          else if startswith (skip_ws r1) (lit '']'') then Some (JArray (vals @ [v]), drop 1 (skip_ws r1))
          else if \<not> startswith (skip_ws r1) (lit '','') then None
          else parse_elems (skip_ws (drop 1 (skip_ws r1))) (vals @ [v]))"
  by pat_completeness auto
termination
  by (relation "measure (\<lambda>x. case x of
          Inl s \<Rightarrow> 2 * length s
        | Inr (Inl (s, pairs)) \<Rightarrow> 2 * length s + 1
        | Inr (Inr (s, vals)) \<Rightarrow> 2 * length s + 1)")
     (auto simp: skip_ws_shorter skip_ws_shorter1 skip_ws_shorter2 skip_ws_shorter3)

declare parse_pairs.simps [simp del] parse_elems.simps [simp del]

text \<open>
  \<open>json.loads(s)\<close>: no byte-order mark in front, white space around one value, nothing
  after it. \<open>raw_decode(s, idx)\<close>: the value at \<open>idx\<close> and the index of its end.
\<close>

definition json_loads :: "str \<Rightarrow> json option" where
  "json_loads s =
     (if startswith s [65279] then None
      else (case scan_once (skip_ws s) of
          None \<Rightarrow> None
        | Some (v, r) \<Rightarrow> if skip_ws r = [] then Some v else None))"

definition raw_decode :: "str \<Rightarrow> nat \<Rightarrow> (json \<times> nat) option" where
  "raw_decode s idx =
     (case scan_once (drop idx s) of
        None \<Rightarrow> None
      | Some (v, r) \<Rightarrow> Some (v, length s - length r))"

subsection \<open>Fences, control characters, the first JSON value\<close>

text \<open>
  \<open>_FENCE_RE\<close> is \<^verbatim>\<open>^\s*```(?:json)?\s*$\<close>, ignoring case, matched against one line of
  \<open>splitlines\<close>. Ignoring case, \<open>s\<close> also matches the long s (U+017F).
\<close>

definition ci_json :: "str \<Rightarrow> bool" where
  "ci_json s \<longleftrightarrow>
     (case take 4 s of
        [c1, c2, c3, c4] \<Rightarrow>
          (c1 = 106 \<or> c1 = 74) \<and> (c2 = 115 \<or> c2 = 83 \<or> c2 = 383) \<and> (c3 = 111 \<or> c3 = 79)
          \<and> (c4 = 110 \<or> c4 = 78)
      | _ \<Rightarrow> False)"

definition fence_re_match :: "str \<Rightarrow> bool" where
  "fence_re_match line =
     (let r = dropWhile is_space line in
      if \<not> startswith r [96, 96, 96] then False
      else (let r2 = drop 3 r;
                r3 = (if ci_json r2 then drop 4 r2 else r2)
            in dropWhile is_space r3 = []))"

definition strip_code_fences :: "str \<Rightarrow> str" where
  "strip_code_fences s0 =
     (let s = strip s0 in
      if s = [] then s
      else (case splitlines s of
          [] \<Rightarrow> s
        | first # rest \<Rightarrow>
            if fence_re_match first then
              (let lines = (if rest \<noteq> [] \<and> fence_re_match (last rest) then butlast rest else rest)
               in strip (join [LF] lines))
            else s))"

text \<open>\<open>_CTRL_RE.sub("", s)\<close>: the class \<^verbatim>\<open>[\x00-\x08\x0b\x0c\x0e-\x1f]\<close> removed.\<close>

definition ctrl_sub :: "str \<Rightarrow> str" where
  "ctrl_sub s = filter (\<lambda>c. \<not> (c \<le> 8 \<or> c = 11 \<or> c = 12 \<or> (14 \<le> c \<and> c \<le> 31))) s"

text \<open>\<open>s.find(c)\<close> and \<open>s.rfind(c)\<close> for one code point; \<open>None\<close> is \<open>-1\<close>.\<close>

definition find_cp :: "str \<Rightarrow> nat \<Rightarrow> nat option" where
  "find_cp s c = (if c \<in> set s then Some (length (takeWhile (\<lambda>x. x \<noteq> c) s)) else None)"

definition rfind_cp :: "str \<Rightarrow> nat \<Rightarrow> nat option" where
  "rfind_cp s c =
     (if c \<in> set s then Some (length s - 1 - length (takeWhile (\<lambda>x. x \<noteq> c) (rev s))) else None)"

definition extract_first_json_value :: "str \<Rightarrow> bool \<Rightarrow> str" where
  "extract_first_json_value raw want_object =
     (let s = strip_code_fences raw;
          open_ch = (if want_object then 123 else 91);
          close_ch = (if want_object then 125 else 93)
      in case find_cp s open_ch of
           None \<Rightarrow> s
         | Some start \<Rightarrow>
             (case raw_decode s start of
                Some (_, stop) \<Rightarrow> slice s start stop
              | None \<Rightarrow>
                  (case rfind_cp s close_ch of
                     Some stop \<Rightarrow> if start < stop then slice s start (stop + 1) else drop start s
                   | None \<Rightarrow> drop start s)))"

definition extract_json_object :: "str \<Rightarrow> str" where
  "extract_json_object raw = extract_first_json_value raw True"

subsection \<open>Repairs\<close>

text \<open>
  \<open>pattern.sub(repl, s)\<close> for a pattern that matches no empty string: \<open>m\<close> tries the
  pattern at the head of a text and answers with the replacement and the text after the
  match. The scan goes on after a match, or one code point further when there is none.
\<close>

function re_sub :: "(str \<Rightarrow> (str \<times> str) option) \<Rightarrow> str \<Rightarrow> str" where
  "re_sub m [] = []"
| "re_sub m (c # r) =
     (case m (c # r) of
        None \<Rightarrow> c # re_sub m r
      | Some (repl, rest) \<Rightarrow>
          if length rest < length (c # r) then repl @ re_sub m rest else c # re_sub m r)"
  by pat_completeness auto
termination
  by (relation "measure (\<lambda>(m, s). length s)") auto

text \<open>\<open>_SINGLE_QUOTE_KEY_RE\<close> is \<^verbatim>\<open>{\s*'([^']+)'\s*:\<close>, replaced by \<^verbatim>\<open>{"\1":\<close>.\<close>

definition single_quote_key :: "str \<Rightarrow> (str \<times> str) option" where
  "single_quote_key s =
     (if \<not> startswith s (lit ''{'') then None
      else (let r1 = dropWhile is_space (drop 1 s) in
        if \<not> startswith r1 [SQ] then None
        else (let g = takeWhile (\<lambda>c. c \<noteq> SQ) (drop 1 r1);
                  r3 = dropWhile (\<lambda>c. c \<noteq> SQ) (drop 1 r1)
              in if g = [] \<or> r3 = [] then None
                 else (let r5 = dropWhile is_space (drop 1 r3) in
                   if startswith r5 (lit '':'') then Some (lit ''{'' @ [DQ] @ g @ [DQ] @ lit '':'', drop 1 r5)
                   else None))))"

text \<open>
  \<open>_UNQUOTED_KEY_RE\<close> is \<^verbatim>\<open>([{\s,])([A-Za-z_][A-Za-z0-9_]*)\s*:\<close>, replaced by
  \<^verbatim>\<open>\1"\2":\<close>.
\<close>

definition is_ident_start :: "nat \<Rightarrow> bool" where
  "is_ident_start c \<longleftrightarrow> (65 \<le> c \<and> c \<le> 90) \<or> (97 \<le> c \<and> c \<le> 122) \<or> c = 95"

definition is_ident_char :: "nat \<Rightarrow> bool" where
  "is_ident_char c \<longleftrightarrow> is_ident_start c \<or> is_digit c"

definition unquoted_key :: "str \<Rightarrow> (str \<times> str) option" where
  "unquoted_key s =
     (case s of
        c # k # r \<Rightarrow>
          if (c = 123 \<or> is_space c \<or> c = 44) \<and> is_ident_start k then
            (let ident = k # takeWhile is_ident_char r;
                 r4 = dropWhile is_space (dropWhile is_ident_char r)
             in if startswith r4 (lit '':'') then Some ([c, DQ] @ ident @ [DQ] @ lit '':'', drop 1 r4)
                else None)
          else None
      | _ \<Rightarrow> None)"

text \<open>
  The single-quoted value: \<^verbatim>\<open>:\s*'((?:\\'|[^'])*)'\<close>. \<open>sq_body\<close> reads the body as the
  pattern does, a backslash with a quote after it as one item; \<open>fallback\<close> is the match
  that backtracking finds when the text ends before a closing quote: the last such
  backslash alone ends the body and its quote closes it.
\<close>

fun sq_body :: "str \<Rightarrow> str \<Rightarrow> (str \<times> str) option \<Rightarrow> (str \<times> str) option" where
  "sq_body [] body fallback = fallback"
| "sq_body [c] body fallback = (if c = SQ then Some (body, []) else fallback)"
| "sq_body (c # d # r) body fallback =
     (if c = BSL \<and> d = SQ then sq_body r (body @ [BSL, SQ]) (Some (body @ [BSL], r))
      else if c = SQ then Some (body, d # r)
      else sq_body (d # r) (body @ [c]) fallback)"

definition sq_val :: "str \<Rightarrow> str" where
  "sq_val inner = lit '': '' @ [DQ] @ replace (replace inner [BSL, SQ] [SQ]) [DQ] [BSL, DQ] @ [DQ]"

definition single_quote_value :: "str \<Rightarrow> (str \<times> str) option" where
  "single_quote_value s =
     (if \<not> startswith s (lit '':'') then None
      else (let r1 = dropWhile is_space (drop 1 s) in
        if \<not> startswith r1 [SQ] then None
        else map_option (\<lambda>(inner, rest). (sq_val inner, rest)) (sq_body (drop 1 r1) [] None)))"

definition repair_common_llm_json :: "str \<Rightarrow> str" where
  "repair_common_llm_json s0 =
     (let s = strip s0 in
      if s = [] then s
      else (let s = ctrl_sub s;
                s = re_sub single_quote_key s;
                s = re_sub unquoted_key s
            in re_sub single_quote_value s))"

subsection \<open>loads_obj\<close>

text \<open>
  \<open>bytes(s, "utf-8").decode("unicode_escape")\<close> is the codec's; \<open>unicode_escape\<close> stands
  for it, with \<open>None\<close> when it raises.
\<close>

definition unescape_if_looks_escaped :: "(str \<Rightarrow> str option) \<Rightarrow> str \<Rightarrow> str" where
  "unescape_if_looks_escaped unicode_escape s =
     (if contains s (BSL # lit ''n'') \<or> contains s (BSL # lit ''t'') \<or> contains s [BSL, DQ]
         \<or> contains s (BSL # lit ''r'')
      then (case unicode_escape s of Some t \<Rightarrow> t | None \<Rightarrow> s)
      else s)"

definition postprocess_obj :: "(str \<Rightarrow> str option) \<Rightarrow> (str \<times> json) list \<Rightarrow> (str \<times> json) list" where
  "postprocess_obj unicode_escape d =
     foldl (\<lambda>d k. case map_of d k of
                     Some (JString v) \<Rightarrow> dict_set k (JString (unescape_if_looks_escaped unicode_escape v)) d
                   | _ \<Rightarrow> d)
       d [lit ''diff'', lit ''text'', lit ''content'']"

datatype json_error = JSONDecodeError | JsonNotObject

text \<open>The value of \<open>json.loads\<close> when it is a dictionary.\<close>

definition loads_dict :: "str \<Rightarrow> (str \<times> json) list option" where
  "loads_dict s = (case json_loads s of Some (JObject d) \<Rightarrow> Some d | _ \<Rightarrow> None)"

definition loads_obj :: "(str \<Rightarrow> str option) \<Rightarrow> str \<Rightarrow> json_error + (str \<times> json) list" where
  "loads_obj unicode_escape text =
     (let raw = ctrl_sub (strip_code_fences text) in
      case loads_dict raw of
        Some v \<Rightarrow> Inr (postprocess_obj unicode_escape v)
      | None \<Rightarrow>
          (let frag = ctrl_sub (strip (extract_json_object raw)) in
           case loads_dict frag of
             Some v2 \<Rightarrow> Inr (postprocess_obj unicode_escape v2)
           | None \<Rightarrow>
               (case json_loads (repair_common_llm_json frag) of
                  None \<Rightarrow> Inl JSONDecodeError
                | Some (JObject v3) \<Rightarrow> Inr (postprocess_obj unicode_escape v3)
                | Some _ \<Rightarrow> Inl JsonNotObject)))"

section \<open>Evaluation rules\<close>

lemmas str_eval =
  lit_def is_linebreak_def is_space_def splitlines_keepends_def splitlines_def chomp_def
  startswith_def endswith_def lstrip_def rstrip_def strip_def lower_def lower_cp_def

lemmas apply_eval =
  str_eval is_digit_def int_of_digits_def many1_def expect_def range_spec_def
  hunk_re_match_def apply_unified_diff_def

section \<open>The concrete scenarios of the diff applier\<close>

text \<open>
  C3 (as the code has it). Applying the diff \<^verbatim>\<open>@@ -1,2 +1,2 @@\n a\n-BOOM\n+b\n\<close> to the
  old text \<^verbatim>\<open>a\nb\n\<close> fails: the context line \<open>a\<close> matches, and the deletion line
  \<open>-BOOM\<close> meets the old line \<open>b\<close>, so the applier raises
  \<open>PatchApplyError("Patch delete mismatch")\<close>.
\<close>

theorem C3_boom_is_delete_mismatch:
  "apply_unified_diff (lit ''a\<newline>b\<newline>'')
     (lit ''@@ -1,2 +1,2 @@\<newline> a\<newline>-BOOM\<newline>+b\<newline>'') = Inl DeleteMismatch
   \<and> error_message DeleteMismatch = lit ''Patch delete mismatch''"
  by (simp add: apply_eval)

text \<open>
  C3 (as the claim states it) does not hold: the error raised on that input is not the
  context mismatch.
\<close>

theorem C3_boom_is_not_context_mismatch:
  "apply_unified_diff (lit ''a\<newline>b\<newline>'')
     (lit ''@@ -1,2 +1,2 @@\<newline> a\<newline>-BOOM\<newline>+b\<newline>'') \<noteq> Inl ContextMismatch"
  by (simp add: apply_eval)

lemmas guard_eval =
  str_eval has_control_chars_def FUTURE_def has_future_import_def TRIPLE_DQ_def TRIPLE_SQ_def
  skip_blank_comments_def skip_docstring_def future_at_top_def
  future_import_is_in_allowed_region_def guard_future_import_def normalize_blank_runs_def
  normalize_for_similarity_def rewrite_keywords_def allow_big_rewrite_def path_parts_def
  path_name_def

lemmas ratio_eval =
  similarity_ratio_def ratio_def get_matching_blocks_def find_longest_match_def b2j_def
  j2len_get_def extend_right.simps

lemmas coder_eval = strip_bom_zw_def is_future_line_def future_import_guard_def

lemma hello_ratio: "similarity_ratio [] (lit ''hello\<newline>'') = 0"
  by (simp add: guard_eval ratio_eval)

lemma hello_future: "guard_future_import [] (lit ''hello\<newline>'') = (True, [])"
  by (simp add: guard_eval)

lemma hello_ctrl: "\<not> has_control_chars (lit ''hello\<newline>'')"
  by (simp add: guard_eval)

text \<open>
  C8 (as the code has it). Applying \<^verbatim>\<open>@@ -0,0 +1,1 @@\n+hello\n\<close> to the empty text
  returns \<^verbatim>\<open>hello\n\<close>. The similarity of the empty text and \<^verbatim>\<open>hello\n\<close> is 0, so
  \<open>enforce_guards\<close> accepts the result exactly when the instruction holds one of the
  rewrite keywords; otherwise it answers with the README block (for a README) or with
  the rewrite-too-violent block, whatever the path.
\<close>

theorem C8_insert_into_empty:
  "apply_unified_diff [] (lit ''@@ -0,0 +1,1 @@\<newline>+hello\<newline>'') = Inr (lit ''hello\<newline>'')
   \<and> enforce_guards relpath instruction [] (lit ''hello\<newline>'') =
       (if allow_big_rewrite instruction then (True, Pass)
        else if lower (path_name relpath) = lit ''readme.md'' then (False, ReadmeRewriteBlocked)
        else (False, RewriteTooViolent 0))"
proof -
  have a: "apply_unified_diff [] (lit ''@@ -0,0 +1,1 @@\<newline>+hello\<newline>'') = Inr (lit ''hello\<newline>'')"
    by (simp add: apply_eval)
  have ne: "[] \<noteq> lit ''hello\<newline>''" by (simp add: lit_def)
  show ?thesis
    unfolding enforce_guards_def using a ne hello_ratio hello_future hello_ctrl
    by (simp add: Let_def)
qed

text \<open>
  C8 (as the claim states it) does not hold for every call: with the instruction
  \<open>apply\<close>, which is \<open>apply_edit\<close>'s default, the guard rejects the inserted text.
\<close>

theorem C8_guard_rejects_apply_instruction:
  "enforce_guards (lit ''notes.txt'') (lit ''apply'') [] (lit ''hello\<newline>'') \<noteq> (True, Pass)"
  by (simp add: enforce_guards_def hello_ratio hello_future hello_ctrl) (simp add: guard_eval)

section \<open>The future-import guard\<close>

text \<open>
  C5 (as the code has it). Both future-import guards look at the old text only, never at
  the path: when the old text has a line whose first token is \<open>from __future__ import\<close>
  and the new text has none, they reject with \<open>future_import_removed\<close> (and so does
  \<open>enforce_guards\<close>, for every path, when the new text has no banned control
  character); when the old text has no such line they pass. For the new text, the guard
  of tools/coder.py also strips a leading byte-order mark or zero-width space from a line
  before looking at it.
\<close>

theorem C5_future_guard_depends_on_old_only:
  "(has_future_import old \<and> \<not> has_future_import new \<longrightarrow>
      guard_future_import old new = (False, lit ''future_import_removed'')
      \<and> (\<not> has_control_chars new \<longrightarrow>
           enforce_guards relpath instruction old new
             = (False, GuardFuture (lit ''future_import_removed''))))
   \<and> (has_future_import old \<and> \<not> list_ex is_future_line (splitlines new) \<longrightarrow>
      future_import_guard old new = (False, lit ''future_import_removed''))
   \<and> (\<not> has_future_import old \<longrightarrow>
      guard_future_import old new = (True, []) \<and> future_import_guard old new = (True, []))"
proof (intro conjI impI)
  assume h: "has_future_import old \<and> \<not> has_future_import new"
  then show g: "guard_future_import old new = (False, lit ''future_import_removed'')"
    by (simp add: guard_future_import_def)
  assume "\<not> has_control_chars new"
  moreover from h have "old \<noteq> new" by auto
  ultimately show "enforce_guards relpath instruction old new
      = (False, GuardFuture (lit ''future_import_removed''))"
    using g by (simp add: enforce_guards_def)
next
  assume h: "has_future_import old \<and> \<not> list_ex is_future_line (splitlines new)"
  then have "filter (\<lambda>idx. is_future_line (splitlines new ! idx)) [0..<length (splitlines new)] = []"
    by (auto simp: filter_empty_conv list_ex_iff)
  with h show "future_import_guard old new = (False, lit ''future_import_removed'')"
    by (simp add: future_import_guard_def has_future_import_def Let_def)
next
  assume "\<not> has_future_import old"
  then show "guard_future_import old new = (True, [])"
    by (simp add: guard_future_import_def)
next
  assume "\<not> has_future_import old"
  then show "future_import_guard old new = (True, [])"
    by (simp add: future_import_guard_def has_future_import_def)
qed

theorem C5_witness:
  "guard_future_import (lit ''from __future__ import annotations\<newline>x = 1\<newline>'') (lit ''x = 2\<newline>'')
     = (False, lit ''future_import_removed'')
   \<and> enforce_guards (lit ''notes.txt'') (lit ''edit'')
        (lit ''from __future__ import annotations\<newline>x = 1\<newline>'') (lit ''x = 2\<newline>'')
     = (False, GuardFuture (lit ''future_import_removed''))
   \<and> future_import_guard (lit ''from __future__ import annotations\<newline>x = 1\<newline>'') (lit ''x = 2\<newline>'')
     = (False, lit ''future_import_removed'')
   \<and> guard_future_import (lit ''x = 1\<newline>'') (lit ''x = 2\<newline>'') = (True, [])
   \<and> future_import_guard (lit ''x = 1\<newline>'') (lit ''x = 2\<newline>'') = (True, [])"
proof -
  have 1: "has_future_import (lit ''from __future__ import annotations\<newline>x = 1\<newline>'')"
    by (simp add: guard_eval)
  have 2: "\<not> has_future_import (lit ''x = 2\<newline>'')" by (simp add: guard_eval)
  have 3: "\<not> has_control_chars (lit ''x = 2\<newline>'')" by (simp add: guard_eval)
  have 4: "\<not> list_ex is_future_line (splitlines (lit ''x = 2\<newline>''))"
    by (simp add: guard_eval coder_eval)
  have 5: "\<not> has_future_import (lit ''x = 1\<newline>'')" by (simp add: guard_eval)
  show ?thesis
    using 1 2 3 4 5
      C5_future_guard_depends_on_old_only
        [of "lit ''from __future__ import annotations\<newline>x = 1\<newline>''" "lit ''x = 2\<newline>''"
          "lit ''notes.txt''" "lit ''edit''"]
      C5_future_guard_depends_on_old_only
        [of "lit ''x = 1\<newline>''" "lit ''x = 2\<newline>''" "lit ''notes.txt''" "lit ''edit''"]
    by blast
qed

text \<open>
  C5 (as the claim states it) does not hold: for a path with suffix \<open>.py\<close>, an old text
  without a future import and a new text without one, the guard does not apply: both
  guards pass, and \<open>enforce_guards\<close> accepts.
\<close>

theorem C5_py_suffix_does_not_trigger_guard:
  "endswith (lit ''m.py'') (lit ''.py'')
   \<and> \<not> has_future_import (lit ''x = 2\<newline>'')
   \<and> guard_future_import (lit ''x = 1\<newline>'') (lit ''x = 2\<newline>'') = (True, [])
   \<and> future_import_guard (lit ''x = 1\<newline>'') (lit ''x = 2\<newline>'') = (True, [])
   \<and> enforce_guards (lit ''m.py'') (lit ''rewrite x'') (lit ''x = 1\<newline>'') (lit ''x = 2\<newline>'') = (True, Pass)"
  by (simp add: guard_eval coder_eval enforce_guards_def)

section \<open>The README guard\<close>

text \<open>
  C6 (as the code has it). For a path whose last component is \<open>readme.md\<close> in any
  letter case, an old text different from the new one, a new text without banned control
  characters, an instruction without any of the rewrite keywords, and texts that pass
  the future-import guard (which \<open>enforce_guards\<close> runs before it looks at the
  similarity): \<open>enforce_guards\<close> rejects exactly when the similarity ratio is below
  0.90, with \<open>guard: README rewrite blocked\<close>, and accepts otherwise.
\<close>

theorem C6_readme_guard:
  assumes "lower (path_name relpath) = lit ''readme.md''"
    and "old \<noteq> new"
    and "\<not> has_control_chars new"
    and "\<not> allow_big_rewrite instruction"
    and "fst (guard_future_import old new)"
  shows "enforce_guards relpath instruction old new =
           (if similarity_ratio old new < 9 / 10 then (False, ReadmeRewriteBlocked) else (True, Pass))
         \<and> guard_text ReadmeRewriteBlocked = lit ''guard: README rewrite blocked''"
  using assms by (cases "guard_future_import old new") (auto simp: enforce_guards_def Let_def)

theorem C6_witness:
  "enforce_guards (lit ''docs/README.md'') (lit ''Add heading'') (lit ''a\<newline>b\<newline>'') (lit ''a\<newline>c\<newline>'')
     = (False, ReadmeRewriteBlocked)
   \<and> similarity_ratio (lit ''a\<newline>b\<newline>'') (lit ''a\<newline>c\<newline>'') = 1 / 2"
proof -
  have 1: "lower (path_name (lit ''docs/README.md'')) = lit ''readme.md''" by (simp add: guard_eval)
  have 2: "lit ''a\<newline>b\<newline>'' \<noteq> lit ''a\<newline>c\<newline>''" by (simp add: lit_def)
  have 3: "\<not> has_control_chars (lit ''a\<newline>c\<newline>'')" by (simp add: guard_eval)
  have 4: "\<not> allow_big_rewrite (lit ''Add heading'')" by (simp add: guard_eval)
  have 5: "fst (guard_future_import (lit ''a\<newline>b\<newline>'') (lit ''a\<newline>c\<newline>''))" by (simp add: guard_eval)
  have 6: "similarity_ratio (lit ''a\<newline>b\<newline>'') (lit ''a\<newline>c\<newline>'') = 1 / 2"
    by (simp add: guard_eval ratio_eval)
  show ?thesis using C6_readme_guard [OF 1 2 3 4 5] 6 by simp
qed

text \<open>
  C6 (as the claim states it) does not hold. A README of ten lines whose first line is a
  future import, edited so that only that line changes: every hypothesis of the claim
  holds and the similarity ratio is exactly 0.90, not below it, yet \<open>enforce_guards\<close>
  rejects, and the detail is that of the future-import guard.
\<close>

lemma readme_old_lines:
  "splitlines (normalize_for_similarity
     (lit ''from __future__ import x\<newline>a\<newline>b\<newline>c\<newline>d\<newline>e\<newline>f\<newline>g\<newline>h\<newline>i\<newline>''))
   = map lit [''from __future__ import x'', ''a'', ''b'', ''c'', ''d'', ''e'', ''f'', ''g'', ''h'', ''i'']"
  by (simp add: guard_eval)

lemma readme_new_lines:
  "splitlines (normalize_for_similarity
     (lit ''import x\<newline>a\<newline>b\<newline>c\<newline>d\<newline>e\<newline>f\<newline>g\<newline>h\<newline>i\<newline>''))
   = map lit [''import x'', ''a'', ''b'', ''c'', ''d'', ''e'', ''f'', ''g'', ''h'', ''i'']"
  by (simp add: guard_eval)

lemma readme_ratio:
  "similarity_ratio
     (lit ''from __future__ import x\<newline>a\<newline>b\<newline>c\<newline>d\<newline>e\<newline>f\<newline>g\<newline>h\<newline>i\<newline>'')
     (lit ''import x\<newline>a\<newline>b\<newline>c\<newline>d\<newline>e\<newline>f\<newline>g\<newline>h\<newline>i\<newline>'') = 9 / 10"
  unfolding similarity_ratio_def readme_old_lines readme_new_lines
  by (simp add: lit_def ratio_def get_matching_blocks_def find_longest_match_def b2j_def
      j2len_get_def extend_right.simps)

theorem C6_future_guard_rejects_first:
  "lower (path_name (lit ''README.md'')) = lit ''readme.md''
   \<and> lit ''from __future__ import x\<newline>a\<newline>b\<newline>c\<newline>d\<newline>e\<newline>f\<newline>g\<newline>h\<newline>i\<newline>''
       \<noteq> lit ''import x\<newline>a\<newline>b\<newline>c\<newline>d\<newline>e\<newline>f\<newline>g\<newline>h\<newline>i\<newline>''
   \<and> \<not> has_control_chars (lit ''import x\<newline>a\<newline>b\<newline>c\<newline>d\<newline>e\<newline>f\<newline>g\<newline>h\<newline>i\<newline>'')
   \<and> \<not> allow_big_rewrite (lit ''Add heading'')
   \<and> \<not> similarity_ratio
         (lit ''from __future__ import x\<newline>a\<newline>b\<newline>c\<newline>d\<newline>e\<newline>f\<newline>g\<newline>h\<newline>i\<newline>'')
         (lit ''import x\<newline>a\<newline>b\<newline>c\<newline>d\<newline>e\<newline>f\<newline>g\<newline>h\<newline>i\<newline>'') < 9 / 10
   \<and> enforce_guards (lit ''README.md'') (lit ''Add heading'')
         (lit ''from __future__ import x\<newline>a\<newline>b\<newline>c\<newline>d\<newline>e\<newline>f\<newline>g\<newline>h\<newline>i\<newline>'')
         (lit ''import x\<newline>a\<newline>b\<newline>c\<newline>d\<newline>e\<newline>f\<newline>g\<newline>h\<newline>i\<newline>'')
       = (False, GuardFuture (lit ''future_import_removed''))"
  unfolding readme_ratio by (simp add: guard_eval enforce_guards_def)

section \<open>The path resolver\<close>

lemma invalid_path_neq_path_escape: "lit ''invalid_path'' \<noteq> lit ''path_escape''"
  by (simp add: lit_def)

text \<open>
  C4. The resolver fails with \<open>invalid_path\<close> exactly when \<open>rel\<close> is empty or begins
  with \<open>/\<close> or \<open>~\<close>. For any other \<open>rel\<close>, with \<open>p\<close> the canonical form of
  \<open>root / rel\<close> and \<open>r\<close> the canonical form of \<open>root\<close> (\<open>canon\<close> is the file
  system's canonicalisation, which follows symbolic links): it fails with
  \<open>path_escape\<close> when the components of \<open>r\<close> are not a prefix of those of \<open>p\<close>, and
  returns \<open>p\<close> otherwise. Whatever it returns is the canonical form of \<open>root / rel\<close>
  and lies under the canonical root (the root itself included, as \<open>relative_to\<close> has it).
\<close>

theorem C4_resolve_repo_path:
  "(resolve_repo_path canon rootp rel = Inl (ValueError (lit ''invalid_path''))
      \<longleftrightarrow> rel = [] \<or> startswith rel (lit ''/'') \<or> startswith rel (lit ''~''))
   \<and> (\<not> (rel = [] \<or> startswith rel (lit ''/'') \<or> startswith rel (lit ''~''))
        \<and> canon (joinpath rootp rel) = Some p \<and> canon rootp = Some r \<longrightarrow>
        resolve_repo_path canon rootp rel
          = (if prefix r p then Inr p else Inl (ValueError (lit ''path_escape''))))
   \<and> (resolve_repo_path canon rootp rel = Inr q \<longrightarrow>
        canon (joinpath rootp rel) = Some q \<and> (\<exists>r. canon rootp = Some r \<and> prefix r q))"
proof (intro conjI impI)
  show "resolve_repo_path canon rootp rel = Inl (ValueError (lit ''invalid_path''))
      \<longleftrightarrow> rel = [] \<or> startswith rel (lit ''/'') \<or> startswith rel (lit ''~'')"
    using invalid_path_neq_path_escape
    by (simp add: resolve_repo_path_def split: option.splits)
next
  assume "\<not> (rel = [] \<or> startswith rel (lit ''/'') \<or> startswith rel (lit ''~''))
        \<and> canon (joinpath rootp rel) = Some p \<and> canon rootp = Some r"
  then show "resolve_repo_path canon rootp rel
          = (if prefix r p then Inr p else Inl (ValueError (lit ''path_escape'')))"
    by (simp add: resolve_repo_path_def)
next
  assume a: "resolve_repo_path canon rootp rel = Inr q"
  then show "canon (joinpath rootp rel) = Some q"
    by (simp add: resolve_repo_path_def split: option.splits if_splits)
  from a show "\<exists>r. canon rootp = Some r \<and> prefix r q"
    by (simp add: resolve_repo_path_def split: option.splits if_splits)
qed

theorem C4_witness:
  "resolve_repo_path Some [lit ''repo''] (lit ''src/a.py'') = Inr [lit ''repo'', lit ''src'', lit ''a.py'']
   \<and> resolve_repo_path (\<lambda>p. if p = [lit ''repo'', lit ''link''] then Some [lit ''etc''] else Some p)
        [lit ''repo''] (lit ''link'') = Inl (ValueError (lit ''path_escape''))
   \<and> resolve_repo_path Some [lit ''repo''] (lit ''/etc/passwd'') = Inl (ValueError (lit ''invalid_path''))"
proof -
  let ?fs = "\<lambda>p. if p = [lit ''repo'', lit ''link''] then Some [lit ''etc''] else Some p"
  have a: "\<not> (lit ''src/a.py'' = [] \<or> startswith (lit ''src/a.py'') (lit ''/'')
              \<or> startswith (lit ''src/a.py'') (lit ''~''))"
    by (simp add: str_eval)
  have b: "joinpath [lit ''repo''] (lit ''src/a.py'') = [lit ''repo'', lit ''src'', lit ''a.py'']"
    by (simp add: joinpath_def path_parts_def str_eval)
  have c: "\<not> (lit ''link'' = [] \<or> startswith (lit ''link'') (lit ''/'')
              \<or> startswith (lit ''link'') (lit ''~''))"
    by (simp add: str_eval)
  have d: "joinpath [lit ''repo''] (lit ''link'') = [lit ''repo'', lit ''link'']"
    by (simp add: joinpath_def path_parts_def str_eval)
  have e: "startswith (lit ''/etc/passwd'') (lit ''/'')" by (simp add: str_eval)
  have f: "[lit ''repo''] \<noteq> [lit ''repo'', lit ''link'']" by simp
  have g: "\<not> prefix [lit ''repo''] [lit ''etc'']" by (simp add: lit_def)
  note escape = C4_resolve_repo_path [THEN conjunct2, THEN conjunct1, rule_format]
  note invalid = C4_resolve_repo_path [THEN conjunct1, THEN iffD2]
  have 1: "resolve_repo_path Some [lit ''repo''] (lit ''src/a.py'')
             = Inr [lit ''repo'', lit ''src'', lit ''a.py'']"
    using escape [of "lit ''src/a.py''" Some "[lit ''repo'']"
            "[lit ''repo'', lit ''src'', lit ''a.py'']" "[lit ''repo'']"] a b
    by simp
  have 2: "resolve_repo_path ?fs [lit ''repo''] (lit ''link'') = Inl (ValueError (lit ''path_escape''))"
    using escape [of "lit ''link''" ?fs "[lit ''repo'']" "[lit ''etc'']" "[lit ''repo'']"]
      c d f g by simp
  have 3: "resolve_repo_path Some [lit ''repo''] (lit ''/etc/passwd'') = Inl (ValueError (lit ''invalid_path''))"
    using invalid [of "lit ''/etc/passwd''" Some "[lit ''repo'']"] e by blast
  show ?thesis using 1 2 3 by simp
qed

section \<open>The apply handler writes only after every check\<close>

lemma commit_edit_failure:
  "commit_edit e files path file_path rootp new stage backup = (Returned (ApplyErr err d f), files')
   \<Longrightarrow> err = lit ''git_add_failed''"
  by (simp add: commit_edit_def Let_def split: sum.splits if_splits)

lemma apply_edit_cases:
  "(\<exists>out. apply_edit e files path patch rootp instruction stage backup = (out, files)
      \<and> (\<forall>err d f. out = Returned (ApplyErr err d f) \<longrightarrow> err \<noteq> lit ''git_add_failed''))
   \<or> (\<exists>file_path old new.
        resolve_repo_path (resolve e) rootp path = Inr file_path
        \<and> files file_path = Some (File old)
        \<and> contains patch (lit ''@@'')
        \<and> validate_edit e path instruction old
              (normalize_unified_diff (maybe_unescape_llm_string patch)) = Inr new
        \<and> apply_edit e files path patch rootp instruction stage backup
              = commit_edit e files path file_path rootp new stage backup)"
proof (cases "resolve_repo_path (resolve e) rootp path")
  case (Inl x)
  then show ?thesis by (simp add: apply_edit_def)
next
  case (Inr file_path)
  show ?thesis
  proof (cases "files file_path")
    case None
    with Inr show ?thesis by (simp add: apply_edit_def lit_def)
  next
    case (Some entry)
    show ?thesis
    proof (cases "contains patch (lit ''@@'')")
      case False
      with Inr Some show ?thesis by (simp add: apply_edit_def lit_def)
    next
      case True
      show ?thesis
      proof (cases entry)
        case Dir
        with Inr Some True show ?thesis by (simp add: apply_edit_def)
      next
        case (File old)
        show ?thesis
        proof (cases "validate_edit e path instruction old
                        (normalize_unified_diff (maybe_unescape_llm_string patch))")
          case (Inl failure)
          have "failure \<noteq> ApplyErr (lit ''git_add_failed'') d f" for d f
            using Inl
            by (auto simp: validate_edit_def Let_def lit_def split: if_splits sum.splits)
          with \<open>resolve_repo_path (resolve e) rootp path = Inr file_path\<close> Some True File Inl
          show ?thesis by (auto simp: apply_edit_def)
        next
          case (Inr new)
          with \<open>resolve_repo_path (resolve e) rootp path = Inr file_path\<close> Some True File
          show ?thesis by (simp add: apply_edit_def)
        qed
      qed
    qed
  qed
qed

text \<open>
  C10. When \<open>apply_edit\<close> returns a failure dictionary whose error is not
  \<open>git_add_failed\<close>, the file system after the call is the one before it: neither the
  target nor a backup was written. And whenever the call leaves the file system changed,
  the target existed as a regular file and every check of \<open>validate_edit\<close> (the empty-file
  validator, the applier, the syntax probe, both guards) had accepted the new text.
\<close>

theorem C10_failure_leaves_files_untouched:
  "(apply_edit e files path patch rootp instruction stage backup
       = (Returned (ApplyErr err d f), files') \<and> err \<noteq> lit ''git_add_failed''
     \<longrightarrow> files' = files)
   \<and> (snd (apply_edit e files path patch rootp instruction stage backup) \<noteq> files
     \<longrightarrow> (\<exists>file_path old new.
            resolve_repo_path (resolve e) rootp path = Inr file_path
            \<and> files file_path = Some (File old)
            \<and> validate_edit e path instruction old
                 (normalize_unified_diff (maybe_unescape_llm_string patch)) = Inr new))"
proof (intro conjI impI)
  assume a: "apply_edit e files path patch rootp instruction stage backup
       = (Returned (ApplyErr err d f), files') \<and> err \<noteq> lit ''git_add_failed''"
  from apply_edit_cases [of e files path patch rootp instruction stage backup]
  show "files' = files"
  proof
    assume "\<exists>out. apply_edit e files path patch rootp instruction stage backup = (out, files)
      \<and> (\<forall>err d f. out = Returned (ApplyErr err d f) \<longrightarrow> err \<noteq> lit ''git_add_failed'')"
    with a show ?thesis by auto
  next
    assume "\<exists>file_path old new.
        resolve_repo_path (resolve e) rootp path = Inr file_path
        \<and> files file_path = Some (File old)
        \<and> contains patch (lit ''@@'')
        \<and> validate_edit e path instruction old
              (normalize_unified_diff (maybe_unescape_llm_string patch)) = Inr new
        \<and> apply_edit e files path patch rootp instruction stage backup
              = commit_edit e files path file_path rootp new stage backup"
    then obtain file_path new where
      "commit_edit e files path file_path rootp new stage backup
         = (Returned (ApplyErr err d f), files')"
      using a by auto
    from commit_edit_failure [OF this] a show ?thesis by simp
  qed
next
  assume "snd (apply_edit e files path patch rootp instruction stage backup) \<noteq> files"
  with apply_edit_cases [of e files path patch rootp instruction stage backup]
  show "\<exists>file_path old new.
            resolve_repo_path (resolve e) rootp path = Inr file_path
            \<and> files file_path = Some (File old)
            \<and> validate_edit e path instruction old
                 (normalize_unified_diff (maybe_unescape_llm_string patch)) = Inr new"
    by auto
qed

definition env0 :: env where
  "env0 = \<lparr>resolve = Some, compiles = (\<lambda>_. True), git_add = (\<lambda>_ _. (0, []))\<rparr>"

definition files0 :: fs where
  "files0 = [[lit ''repo'', lit ''a.txt''] \<mapsto> File (lit ''a\<newline>b\<newline>'')]"

lemmas norm_eval =
  str_eval maybe_unescape_llm_string_def op_tail_def hunk_inline_op_match_def NOISE_PREFIXES_def
  is_noise_def normalize_line_def normalize_unified_diff_def

lemma boom_normal:
  "normalize_unified_diff (maybe_unescape_llm_string
      (lit ''@@ -1,2 +1,2 @@\<newline> a\<newline>-BOOM\<newline>+b\<newline>''))
   = lit ''@@ -1,2 +1,2 @@\<newline> a\<newline>-BOOM\<newline>+b\<newline>''"
  by (simp add: norm_eval)


lemma boom_head:
  "resolve_repo_path (resolve env0) [lit ''repo''] (lit ''a.txt'') = Inr [lit ''repo'', lit ''a.txt'']"
  by (simp add: resolve_repo_path_def env0_def joinpath_def path_parts_def str_eval)

lemma boom_validate:
  "validate_edit env0 (lit ''a.txt'') (lit ''apply'') (lit ''a\<newline>b\<newline>'')
     (lit ''@@ -1,2 +1,2 @@\<newline> a\<newline>-BOOM\<newline>+b\<newline>'')
   = Inl (ApplyErr (lit ''patch_apply_failed'') (Some (DetailApply DeleteMismatch)) None)"
proof -
  have "apply_unified_diff (lit ''a\<newline>b\<newline>'')
     (lit ''@@ -1,2 +1,2 @@\<newline> a\<newline>-BOOM\<newline>+b\<newline>'') = Inl DeleteMismatch"
    by (simp add: apply_eval)
  moreover have "lit ''a\<newline>b\<newline>'' \<noteq> []" by (simp add: lit_def)
  ultimately show ?thesis by (simp add: validate_edit_def)
qed

lemma boom_contains: "contains (lit ''@@ -1,2 +1,2 @@\<newline> a\<newline>-BOOM\<newline>+b\<newline>'') (lit ''@@'')"
  by (simp add: str_eval)

theorem C10_witness:
  "apply_edit env0 files0 (lit ''a.txt'') (lit ''@@ -1,2 +1,2 @@\<newline> a\<newline>-BOOM\<newline>+b\<newline>'')
     [lit ''repo''] (lit ''apply'') False True
   = (Returned (ApplyErr (lit ''patch_apply_failed'') (Some (DetailApply DeleteMismatch)) None), files0)"
proof -
  let ?r = "apply_edit env0 files0 (lit ''a.txt'') (lit ''@@ -1,2 +1,2 @@\<newline> a\<newline>-BOOM\<newline>+b\<newline>'')
     [lit ''repo''] (lit ''apply'') False True"
  have 1: "fst ?r = Returned (ApplyErr (lit ''patch_apply_failed'') (Some (DetailApply DeleteMismatch)) None)"
    by (simp add: apply_edit_def boom_head boom_normal boom_validate boom_contains files0_def)
  have 2: "lit ''patch_apply_failed'' \<noteq> lit ''git_add_failed''" by (simp add: lit_def)
  have "?r = (Returned (ApplyErr (lit ''patch_apply_failed'') (Some (DetailApply DeleteMismatch)) None), snd ?r)"
    using 1 by (metis prod.collapse)
  with 2 C10_failure_leaves_files_untouched
    [of env0 files0 "lit ''a.txt''" "lit ''@@ -1,2 +1,2 @@\<newline> a\<newline>-BOOM\<newline>+b\<newline>''"
      "[lit ''repo'']" "lit ''apply''" False True "lit ''patch_apply_failed''"
      "Some (DetailApply DeleteMismatch)" None "snd ?r"]
  have "snd ?r = files0" by blast
  with 1 show ?thesis by (metis prod.collapse)
qed

section \<open>The empty-file validator\<close>

abbreviation is_hunk_header :: "str \<Rightarrow> bool" where
  "is_hunk_header l \<equiv> startswith l (lit ''@@'')"

abbreviation is_ignored :: "str \<Rightarrow> bool" where
  "is_ignored l \<equiv> startswith l [BSL] \<or> l = []"

abbreviation is_context :: "str \<Rightarrow> bool" where
  "is_context l \<equiv> startswith l (lit '' '')"

abbreviation is_deletion :: "str \<Rightarrow> bool" where
  "is_deletion l \<equiv> startswith l (lit ''-'')"

abbreviation is_insertion :: "str \<Rightarrow> bool" where
  "is_insertion l \<equiv> startswith l (lit ''+'')"

text \<open>
  The lines that the loop of the validator steps over once it is inside a hunk: a
  further header, a \<open>\\<close> line, an empty line, an insertion.
\<close>

abbreviation is_harmless :: "str \<Rightarrow> bool" where
  "is_harmless l \<equiv> is_hunk_header l \<or> is_ignored l \<or> is_insertion l"

lemma first_char_facts:
  "is_context l \<Longrightarrow> \<not> is_hunk_header l \<and> \<not> is_ignored l \<and> \<not> is_deletion l \<and> \<not> is_insertion l"
  "is_deletion l \<Longrightarrow> \<not> is_hunk_header l \<and> \<not> is_ignored l \<and> \<not> is_context l \<and> \<not> is_insertion l"
  "is_insertion l \<Longrightarrow> \<not> is_hunk_header l \<and> \<not> is_ignored l \<and> \<not> is_context l \<and> \<not> is_deletion l"
  by (cases l; auto simp: startswith_def lit_def)+

lemma validate_loop_skip:
  "validate_loop False sp xs
     = validate_loop False sp (dropWhile (\<lambda>x. \<not> is_hunk_header x) xs)"
  by (induction xs) auto

lemma validate_loop_harmless:
  "list_all (\<lambda>x. is_hunk_header x \<or> is_ignored x \<or> is_insertion x) pre \<Longrightarrow>
   validate_loop True sp (pre @ rest) = validate_loop True (sp \<or> list_ex is_insertion pre) rest"
proof (induction pre arbitrary: sp)
  case Nil
  then show ?case by simp
next
  case (Cons x pre)
  then show ?case using first_char_facts(3) [of x] by auto
qed

lemma validate_loop_rejects:
  "is_context l \<or> is_deletion l \<Longrightarrow> in_hunk \<or> list_ex is_hunk_header pre \<Longrightarrow>
   \<not> fst (validate_loop in_hunk sp (pre @ l # post))"
proof (induction pre arbitrary: in_hunk sp)
  case Nil
  then show ?case using first_char_facts(1,2) [of l] by auto
next
  case (Cons x pre)
  then show ?case by (auto simp: lit_def)
qed

lemma validate_loop_needs_insertion:
  "\<not> sp \<Longrightarrow> \<not> list_ex is_insertion xs \<Longrightarrow> \<not> fst (validate_loop in_hunk sp xs)"
  by (induction xs arbitrary: in_hunk) auto

lemma validate_loop_offender:
  "\<not> is_harmless l \<Longrightarrow>
   validate_loop True sp (l # post)
     = (False, if is_context l then lit ''context_lines''
               else if is_deletion l then lit ''deletions'' else lit ''invalid_line'')"
  by simp

lemma validate_loop_passes:
  "fst (validate_loop True sp xs) \<longleftrightarrow> list_all is_harmless xs \<and> (sp \<or> list_ex is_insertion xs)"
proof (induction xs arbitrary: sp)
  case Nil
  then show ?case by simp
next
  case (Cons x xs)
  show ?case
  proof (cases "is_harmless x")
    case True
    then have "validate_loop True sp (x # xs) = validate_loop True (sp \<or> is_insertion x) xs"
      using validate_loop_harmless [of "[x]" sp xs] by simp
    then have "fst (validate_loop True sp (x # xs))
        \<longleftrightarrow> list_all is_harmless xs \<and> ((sp \<or> is_insertion x) \<or> list_ex is_insertion xs)"
      by (simp only: Cons.IH)
    with True show ?thesis unfolding list_all_iff list_ex_iff list.set by blast
  next
    case False
    then have "\<not> fst (validate_loop True sp (x # xs))"
      using validate_loop_offender [of x sp xs] by (simp only: fst_conv not_False_eq_True)
    with False show ?thesis unfolding list_all_iff list.set by blast
  qed
qed

lemma validate_from_first_header:
  "validate_diff_for_empty_old diff =
     (case dropWhile (\<lambda>x. \<not> is_hunk_header x) (splitlines diff) of
        [] \<Rightarrow> (False, lit ''no_hunks'')
      | h # body \<Rightarrow> validate_loop True False body)"
proof -
  let ?b = "dropWhile (\<lambda>x. \<not> is_hunk_header x) (splitlines diff)"
  have a: "validate_diff_for_empty_old diff = validate_loop False False ?b"
    unfolding validate_diff_for_empty_old_def by (rule validate_loop_skip)
  show ?thesis
  proof (cases ?b)
    case Nil
    with a show ?thesis by (simp del: dropWhile_eq_Nil_conv)
  next
    case (Cons h body)
    then have "is_hunk_header h" by (metis hd_dropWhile list.distinct(1) list.sel(1))
    with a Cons show ?thesis by simp
  qed
qed

text \<open>
  C7. The empty-file validator, on the lines of its argument. The lines in front of
  the first hunk header \<open>h\<close> are skipped; of the lines after it, further headers,
  \<open>\\<close> lines, empty lines and insertions are stepped over, and the first line of any
  other kind decides the detail.
  \<^item> A diff with a context or deletion line anywhere after a hunk header is rejected.
  \<^item> A diff without an insertion line is rejected, and so is a diff with no insertion
    line after its first header.
  \<^item> The detail is that of the first line after the first header that is not stepped
    over: \<open>context_lines\<close> for a context line, \<open>deletions\<close> for a deletion line,
    \<open>invalid_line\<close> for any other line.
  \<^item> A diff with a header followed only by headers, \<open>\\<close> lines and empty lines is
    rejected with \<open>empty_hunk\<close>.
  \<^item> A diff without a header line is rejected with \<open>no_hunks\<close>.
  \<^item> A diff with a header passes exactly when the lines after its first header are
    headers, \<open>\\<close> lines, empty lines and insertions, with at least one insertion.
  \<^item> \<open>apply_edit\<close>, on a target that is an empty file and a patch that holds \<open>@@\<close>,
    answers a rejection of the validator (run on the normalised patch) with the error
    \<open>bad_patch_empty_old\<close> and the validator's detail, and writes nothing.
\<close>

theorem C7_empty_old_validator:
  "(splitlines diff = pre @ l # post \<and> list_ex is_hunk_header pre \<and> (is_context l \<or> is_deletion l)
      \<longrightarrow> \<not> fst (validate_diff_for_empty_old diff))
   \<and> (\<not> list_ex is_insertion (splitlines diff) \<longrightarrow> \<not> fst (validate_diff_for_empty_old diff))
   \<and> (dropWhile (\<lambda>x. \<not> is_hunk_header x) (splitlines diff) = h # body
        \<and> \<not> list_ex is_insertion body
      \<longrightarrow> \<not> fst (validate_diff_for_empty_old diff))
   \<and> (dropWhile (\<lambda>x. \<not> is_hunk_header x) (splitlines diff) = h # pre @ l # post
        \<and> list_all is_harmless pre \<and> \<not> is_harmless l
      \<longrightarrow> validate_diff_for_empty_old diff
            = (False, if is_context l then lit ''context_lines''
                      else if is_deletion l then lit ''deletions'' else lit ''invalid_line''))
   \<and> (dropWhile (\<lambda>x. \<not> is_hunk_header x) (splitlines diff) = h # body
        \<and> list_all (\<lambda>x. is_hunk_header x \<or> is_ignored x) body
      \<longrightarrow> validate_diff_for_empty_old diff = (False, lit ''empty_hunk''))
   \<and> (dropWhile (\<lambda>x. \<not> is_hunk_header x) (splitlines diff) = []
      \<longrightarrow> validate_diff_for_empty_old diff = (False, lit ''no_hunks''))
   \<and> (dropWhile (\<lambda>x. \<not> is_hunk_header x) (splitlines diff) = h # body
      \<longrightarrow> (fst (validate_diff_for_empty_old diff)
             \<longleftrightarrow> list_all is_harmless body \<and> list_ex is_insertion body)
          \<and> (fst (validate_diff_for_empty_old diff)
             \<longrightarrow> validate_diff_for_empty_old diff = (True, [])))
   \<and> (resolve_repo_path (resolve e) rootp path = Inr file_path \<and> files file_path = Some (File [])
        \<and> contains patch (lit ''@@'')
        \<and> validate_diff_for_empty_old (normalize_unified_diff (maybe_unescape_llm_string patch))
             = (False, why)
      \<longrightarrow> apply_edit e files path patch rootp instruction stage backup
            = (Returned (ApplyErr (lit ''bad_patch_empty_old'') (Some (DetailText why)) None), files))"
proof (intro conjI impI)
  assume "splitlines diff = pre @ l # post \<and> list_ex is_hunk_header pre \<and> (is_context l \<or> is_deletion l)"
  then show "\<not> fst (validate_diff_for_empty_old diff)"
    using validate_loop_rejects [of l False pre False post]
    by (simp add: validate_diff_for_empty_old_def)
next
  assume "\<not> list_ex is_insertion (splitlines diff)"
  then show "\<not> fst (validate_diff_for_empty_old diff)"
    unfolding validate_diff_for_empty_old_def
    by (intro validate_loop_needs_insertion) simp_all
next
  assume a: "dropWhile (\<lambda>x. \<not> is_hunk_header x) (splitlines diff) = h # body
        \<and> \<not> list_ex is_insertion body"
  then have "\<not> fst (validate_loop True False body)"
    by (intro validate_loop_needs_insertion) simp_all
  with a show "\<not> fst (validate_diff_for_empty_old diff)"
    by (simp add: validate_from_first_header)
next
  assume a: "dropWhile (\<lambda>x. \<not> is_hunk_header x) (splitlines diff) = h # pre @ l # post
        \<and> list_all is_harmless pre \<and> \<not> is_harmless l"
  then have "validate_diff_for_empty_old diff
      = validate_loop True (list_ex is_insertion pre) (l # post)"
    using validate_loop_harmless [of pre False "l # post"]
    by (simp add: validate_from_first_header)
  also have "\<dots> = (False, if is_context l then lit ''context_lines''
                      else if is_deletion l then lit ''deletions'' else lit ''invalid_line'')"
    using a by (intro validate_loop_offender) simp
  finally show "validate_diff_for_empty_old diff
            = (False, if is_context l then lit ''context_lines''
                      else if is_deletion l then lit ''deletions'' else lit ''invalid_line'')" .
next
  assume a: "dropWhile (\<lambda>x. \<not> is_hunk_header x) (splitlines diff) = h # body
        \<and> list_all (\<lambda>x. is_hunk_header x \<or> is_ignored x) body"
  then have 1: "list_all (\<lambda>x. is_hunk_header x \<or> is_ignored x \<or> is_insertion x) body"
    by (auto simp: list_all_iff)
  from a have 2: "\<not> list_ex is_insertion body"
    using first_char_facts(3) by (auto simp: list_all_iff list_ex_iff)
  from a validate_loop_harmless [OF 1, of False "[]"] 2
  show "validate_diff_for_empty_old diff = (False, lit ''empty_hunk'')"
    by (simp add: validate_from_first_header)
next
  assume "dropWhile (\<lambda>x. \<not> is_hunk_header x) (splitlines diff) = []"
  then show "validate_diff_for_empty_old diff = (False, lit ''no_hunks'')"
    by (simp add: validate_from_first_header del: dropWhile_eq_Nil_conv)
next
  assume a: "dropWhile (\<lambda>x. \<not> is_hunk_header x) (splitlines diff) = h # body"
  then show "fst (validate_diff_for_empty_old diff)
             \<longleftrightarrow> list_all is_harmless body \<and> list_ex is_insertion body"
    using validate_loop_passes [of False body] by (simp add: validate_from_first_header)
next
  assume a: "dropWhile (\<lambda>x. \<not> is_hunk_header x) (splitlines diff) = h # body"
    and p: "fst (validate_diff_for_empty_old diff)"
  from a p have 1: "list_all is_harmless body" and 2: "list_ex is_insertion body"
    using validate_loop_passes [of False body] by (simp_all add: validate_from_first_header)
  from a validate_loop_harmless [OF 1, of False "[]"] 2
  show "validate_diff_for_empty_old diff = (True, [])"
    by (simp add: validate_from_first_header)
next
  assume "resolve_repo_path (resolve e) rootp path = Inr file_path \<and> files file_path = Some (File [])
        \<and> contains patch (lit ''@@'')
        \<and> validate_diff_for_empty_old (normalize_unified_diff (maybe_unescape_llm_string patch))
             = (False, why)"
  then show "apply_edit e files path patch rootp instruction stage backup
            = (Returned (ApplyErr (lit ''bad_patch_empty_old'') (Some (DetailText why)) None), files)"
    by (simp add: apply_edit_def validate_edit_def)
qed

definition files_empty :: fs where
  "files_empty = [[lit ''repo'', lit ''new.txt''] \<mapsto> File []]"

lemma context_patch_normal:
  "normalize_unified_diff (maybe_unescape_llm_string (lit ''@@ -0,0 +1 @@\<newline> a\<newline>''))
   = lit ''@@ -0,0 +1 @@\<newline> a\<newline>''"
  by (simp add: norm_eval)

theorem C7_witness:
  "validate_diff_for_empty_old (lit ''@@ -0,0 +1 @@\<newline> a\<newline>'') = (False, lit ''context_lines'')
   \<and> validate_diff_for_empty_old (lit ''@@ -0,0 +1 @@\<newline>+x\<newline>-a\<newline>'') = (False, lit ''deletions'')
   \<and> validate_diff_for_empty_old (lit ''@@ -0,0 +1 @@\<newline>+x\<newline>junk\<newline> a\<newline>'') = (False, lit ''invalid_line'')
   \<and> \<not> fst (validate_diff_for_empty_old (lit ''@@ -0,0 +1 @@\<newline>junk\<newline> a\<newline>''))
   \<and> \<not> fst (validate_diff_for_empty_old (lit ''@@ -0,0 +1 @@\<newline>junk\<newline>''))
   \<and> \<not> fst (validate_diff_for_empty_old (lit ''+x\<newline>@@ -0,0 +1 @@\<newline>junk\<newline>''))
   \<and> validate_diff_for_empty_old (lit ''@@ -0,0 +1 @@\<newline>'') = (False, lit ''empty_hunk'')
   \<and> validate_diff_for_empty_old (lit ''hello\<newline>'') = (False, lit ''no_hunks'')
   \<and> validate_diff_for_empty_old (lit ''@@ -0,0 +1,1 @@\<newline>+hello\<newline>'') = (True, [])
   \<and> apply_edit env0 files_empty (lit ''new.txt'') (lit ''@@ -0,0 +1 @@\<newline> a\<newline>'')
         [lit ''repo''] (lit ''apply'') False True
       = (Returned (ApplyErr (lit ''bad_patch_empty_old'') (Some (DetailText (lit ''context_lines''))) None),
          files_empty)"
proof -
  note rejects = C7_empty_old_validator [THEN conjunct1, rule_format]
  note no_plus = C7_empty_old_validator [THEN conjunct2, THEN conjunct1, rule_format]
  note no_plus_after = C7_empty_old_validator [THEN conjunct2, THEN conjunct2, THEN conjunct1, rule_format]
  note first = C7_empty_old_validator
    [THEN conjunct2, THEN conjunct2, THEN conjunct2, THEN conjunct1, rule_format]
  note empty_hunk = C7_empty_old_validator
    [THEN conjunct2, THEN conjunct2, THEN conjunct2, THEN conjunct2, THEN conjunct1, rule_format]
  note no_hunks = C7_empty_old_validator
    [THEN conjunct2, THEN conjunct2, THEN conjunct2, THEN conjunct2, THEN conjunct2, THEN conjunct1,
     rule_format]
  note pure = C7_empty_old_validator
    [THEN conjunct2, THEN conjunct2, THEN conjunct2, THEN conjunct2, THEN conjunct2, THEN conjunct2,
     THEN conjunct1, rule_format]
  note reported = C7_empty_old_validator
    [THEN conjunct2, THEN conjunct2, THEN conjunct2, THEN conjunct2, THEN conjunct2, THEN conjunct2,
     THEN conjunct2, rule_format]
  have 1: "validate_diff_for_empty_old (lit ''@@ -0,0 +1 @@\<newline> a\<newline>'') = (False, lit ''context_lines'')"
    using first [where diff = "lit ''@@ -0,0 +1 @@\<newline> a\<newline>''" and h = "lit ''@@ -0,0 +1 @@''"
        and pre = "[]" and l = "lit '' a''" and post = "[]"]
    by (simp add: str_eval)
  have 2: "validate_diff_for_empty_old (lit ''@@ -0,0 +1 @@\<newline>+x\<newline>-a\<newline>'') = (False, lit ''deletions'')"
    using first [where diff = "lit ''@@ -0,0 +1 @@\<newline>+x\<newline>-a\<newline>''" and h = "lit ''@@ -0,0 +1 @@''"
        and pre = "[lit ''+x'']" and l = "lit ''-a''" and post = "[]"]
    by (simp add: str_eval)
  have 3: "validate_diff_for_empty_old (lit ''@@ -0,0 +1 @@\<newline>+x\<newline>junk\<newline> a\<newline>'')
             = (False, lit ''invalid_line'')"
    using first [where diff = "lit ''@@ -0,0 +1 @@\<newline>+x\<newline>junk\<newline> a\<newline>''"
        and h = "lit ''@@ -0,0 +1 @@''" and pre = "[lit ''+x'']" and l = "lit ''junk''"
        and post = "[lit '' a'']"]
    by (simp add: str_eval)
  have 4: "\<not> fst (validate_diff_for_empty_old (lit ''@@ -0,0 +1 @@\<newline>junk\<newline> a\<newline>''))"
    using rejects [where diff = "lit ''@@ -0,0 +1 @@\<newline>junk\<newline> a\<newline>''"
        and pre = "[lit ''@@ -0,0 +1 @@'', lit ''junk'']" and l = "lit '' a''" and post = "[]"]
    by (simp add: str_eval)
  have 5: "\<not> fst (validate_diff_for_empty_old (lit ''@@ -0,0 +1 @@\<newline>junk\<newline>''))"
    using no_plus [where diff = "lit ''@@ -0,0 +1 @@\<newline>junk\<newline>''"]
    by (simp add: str_eval)
  have 6: "\<not> fst (validate_diff_for_empty_old (lit ''+x\<newline>@@ -0,0 +1 @@\<newline>junk\<newline>''))"
    using no_plus_after [where diff = "lit ''+x\<newline>@@ -0,0 +1 @@\<newline>junk\<newline>''"
        and h = "lit ''@@ -0,0 +1 @@''" and body = "[lit ''junk'']"]
    by (simp add: str_eval)
  have 7: "validate_diff_for_empty_old (lit ''@@ -0,0 +1 @@\<newline>'') = (False, lit ''empty_hunk'')"
    using empty_hunk [where diff = "lit ''@@ -0,0 +1 @@\<newline>''" and h = "lit ''@@ -0,0 +1 @@''" and body = "[]"]
    by (simp add: str_eval)
  have 8: "validate_diff_for_empty_old (lit ''hello\<newline>'') = (False, lit ''no_hunks'')"
    using no_hunks [where diff = "lit ''hello\<newline>''"] by (simp add: str_eval)
  have 9: "validate_diff_for_empty_old (lit ''@@ -0,0 +1,1 @@\<newline>+hello\<newline>'') = (True, [])"
    using pure [where diff = "lit ''@@ -0,0 +1,1 @@\<newline>+hello\<newline>''" and h = "lit ''@@ -0,0 +1,1 @@''"
        and body = "[lit ''+hello'']"]
    by (simp add: str_eval)
  have 10: "apply_edit env0 files_empty (lit ''new.txt'') (lit ''@@ -0,0 +1 @@\<newline> a\<newline>'')
         [lit ''repo''] (lit ''apply'') False True
       = (Returned (ApplyErr (lit ''bad_patch_empty_old'') (Some (DetailText (lit ''context_lines''))) None),
          files_empty)"
    using reported [where e = env0 and rootp = "[lit ''repo'']" and path = "lit ''new.txt''"
        and file_path = "[lit ''repo'', lit ''new.txt'']" and files = files_empty
        and patch = "lit ''@@ -0,0 +1 @@\<newline> a\<newline>''" and why = "lit ''context_lines''"
        and instruction = "lit ''apply''" and stage = False and backup = True]
      context_patch_normal 1
    by (simp add: resolve_repo_path_def env0_def joinpath_def path_parts_def files_empty_def str_eval)
  show ?thesis using 1 2 3 4 5 6 7 8 9 10 by simp
qed

text \<open>
  A line after the header that is neither context, deletion nor insertion is reported
  as \<open>invalid_line\<close>, also when the diff holds no insertion; and the detail names the
  first offending line, so a deletion in front of a context line gives \<open>deletions\<close>.
\<close>

theorem C7_junk_line_is_invalid_line:
  "validate_diff_for_empty_old (lit ''@@ -0,0 +1 @@\<newline>hello\<newline>'') = (False, lit ''invalid_line'')
   \<and> validate_diff_for_empty_old (lit ''@@ -0,0 +1 @@\<newline>hello\<newline>'') \<noteq> (False, lit ''empty_hunk'')
   \<and> validate_diff_for_empty_old (lit ''@@ -0,0 +1 @@\<newline>-a\<newline> b\<newline>'') = (False, lit ''deletions'')
   \<and> validate_diff_for_empty_old (lit ''@@ -0,0 +1 @@\<newline>-a\<newline> b\<newline>'') \<noteq> (False, lit ''context_lines'')"
  by (simp add: validate_diff_for_empty_old_def str_eval)

section \<open>Normalising a diff before applying it\<close>

lemma replace_absent: "c \<notin> set s \<Longrightarrow> replace s (c # a) b = s"
  by (induction s) (auto simp: startswith_def)

lemma split_on_nonempty: "split_on sep s \<noteq> []"
  by (induction s) (auto split: list.splits)

lemma split_on_line: "sep \<notin> set l \<Longrightarrow> split_on sep (l @ sep # rest) = l # split_on sep rest"
  by (induction l) (auto split: list.splits simp: split_on_nonempty)

lemma split_on_unlines:
  "list_all (\<lambda>l. sep \<notin> set l) ls \<Longrightarrow>
   split_on sep (concat (map (\<lambda>l. l @ [sep]) ls)) = ls @ [[]]"
  by (induction ls) (auto simp: split_on_line)

lemma join_unlines: "xs \<noteq> [] \<Longrightarrow> join [sep] (xs @ [[]]) = concat (map (\<lambda>l. l @ [sep]) xs)"
proof (induction xs)
  case Nil
  then show ?case by simp
next
  case (Cons x xs)
  then show ?case by (cases xs) auto
qed

lemma splitlines_from_line:
  "list_all (\<lambda>c. \<not> is_linebreak c) l \<Longrightarrow>
   splitlines_from cur (l @ LF # rest) = (cur @ l @ [LF]) # splitlines_from [] rest"
proof (induction l arbitrary: cur)
  case Nil
  show ?case by (cases rest) (auto simp: is_linebreak_def)
next
  case (Cons c l)
  then have c: "\<not> is_linebreak c" and l: "list_all (\<lambda>c. \<not> is_linebreak c) l" by auto
  from c have "c \<noteq> CR" by (auto simp: is_linebreak_def)
  obtain d ds where "l @ LF # rest = d # ds" by (cases "l @ LF # rest") auto
  with c \<open>c \<noteq> CR\<close> Cons.IH [OF l, of "cur @ [c]"] show ?case by simp
qed

lemma splitlines_keepends_unlines:
  "list_all (\<lambda>l. list_all (\<lambda>c. \<not> is_linebreak c) l) ls \<Longrightarrow>
   splitlines_keepends (concat (map (\<lambda>l. l @ [LF]) ls)) = map (\<lambda>l. l @ [LF]) ls"
  unfolding splitlines_keepends_def
  by (induction ls) (auto simp: splitlines_from_line)



lemma header_with_newline: "is_hunk_header (l @ [LF]) \<longleftrightarrow> is_hunk_header l"
proof (cases l)
  case Nil
  then show ?thesis by (simp add: startswith_def lit_def)
next
  case (Cons a t)
  then show ?thesis by (cases t) (auto simp: startswith_def lit_def)
qed

lemma noise_is_no_header: "is_noise l \<Longrightarrow> \<not> is_hunk_header l"
  by (cases l) (auto simp: is_noise_def NOISE_PREFIXES_def startswith_def lit_def)

lemma normalize_line_plain:
  "\<not> is_noise l \<Longrightarrow> hunk_inline_op_match l = None \<Longrightarrow> normalize_line l = [l]"
  by (simp add: normalize_line_def)

lemma normalize_lines_before_header:
  "list_all (\<lambda>l. \<not> is_hunk_header l) pre \<Longrightarrow>
   concat (map normalize_line pre) = filter (\<lambda>l. \<not> is_noise l) pre"
  by (induction pre) (auto simp: normalize_line_def hunk_inline_op_match_def)

lemma normalize_lines_plain:
  "list_all (\<lambda>l. \<not> is_noise l \<and> hunk_inline_op_match l = None) post \<Longrightarrow>
   concat (map normalize_line post) = post"
  by (induction post) (auto simp: normalize_line_plain)

lemma normalize_line_empty: "normalize_line [] = [[]]"
  by (simp add: normalize_line_def is_noise_def NOISE_PREFIXES_def hunk_inline_op_match_def
      startswith_def lit_def)

lemma endswith_unlines: "xs \<noteq> [] \<Longrightarrow> endswith (concat (map (\<lambda>l. l @ [LF]) xs)) [LF]"
proof -
  assume "xs \<noteq> []"
  then have "concat (map (\<lambda>l. l @ [LF]) xs)
      = (concat (map (\<lambda>l. l @ [LF]) (butlast xs)) @ last xs) @ [LF]"
    by (induction xs) auto
  then show ?thesis by (simp add: endswith_def)
qed

lemma apply_by_lines:
  "apply_unified_diff old diff =
     (if dropWhile (\<lambda>l. \<not> is_hunk_header l) (splitlines_keepends diff) = [] then Inl NoHunksFound
      else hunks (splitlines_keepends old) [] 0
             (dropWhile (\<lambda>l. \<not> is_hunk_header l) (splitlines_keepends diff)))"
  by (simp add: apply_unified_diff_def Let_def)

lemma dropWhile_header_terminated:
  "dropWhile (\<lambda>l. \<not> is_hunk_header l) (map (\<lambda>l. l @ [LF]) xs)
     = map (\<lambda>l. l @ [LF]) (dropWhile (\<lambda>l. \<not> is_hunk_header l) xs)"
  by (induction xs) (auto simp: header_with_newline)

text \<open>
  C2 (as the code has it). Take a diff written as lines terminated by LF, none of which
  holds a line-boundary character, such that from the first hunk header on no line
  begins with a noise prefix (\<open>diff --git\<close>, \<open>index\<close>, \<open>---\<close>, \<open>+++\<close>, each followed by
  a blank) and no line is a hunk header followed by a body operation on the same line.
  Then applying the normalised diff gives what applying the diff gives: the same text,
  or the same error.
\<close>

theorem C2_normalize_keeps_canonical_diffs:
  assumes lines: "list_all (\<lambda>l. list_all (\<lambda>c. \<not> is_linebreak c) l) ls"
    and body: "list_all (\<lambda>l. \<not> is_noise l \<and> hunk_inline_op_match l = None)
                 (dropWhile (\<lambda>l. \<not> is_hunk_header l) ls)"
  shows "apply_unified_diff old (normalize_unified_diff (concat (map (\<lambda>l. l @ [LF]) ls)))
           = apply_unified_diff old (concat (map (\<lambda>l. l @ [LF]) ls))"
proof -
  let ?U = "\<lambda>xs. concat (map (\<lambda>l. l @ [LF]) xs)"
  let ?hdr = "\<lambda>l. \<not> is_hunk_header l"
  let ?pre = "takeWhile ?hdr ls" and ?post = "dropWhile ?hdr ls"
  let ?xs = "filter (\<lambda>l. \<not> is_noise l) ?pre @ ?post"
  have nolf: "list_all (\<lambda>l. LF \<notin> set l) ls" and nocr: "CR \<notin> set (?U ls)"
    using lines by (auto simp: list_all_iff is_linebreak_def)
  have repl: "replace (replace (?U ls) [CR, LF] [LF]) [CR] [LF] = ?U ls"
    using nocr by (simp add: replace_absent)
  have split: "split_on LF (?U ls) = ?pre @ ?post @ [[]]"
    using split_on_unlines [OF nolf] by simp
  have pre_out: "concat (map normalize_line ?pre) = filter (\<lambda>l. \<not> is_noise l) ?pre"
    by (rule normalize_lines_before_header) (auto simp: list_all_iff dest: set_takeWhileD)
  have out: "concat (map normalize_line (split_on LF (?U ls))) = ?xs @ [[]]"
    unfolding split using pre_out normalize_lines_plain [OF body]
    by (simp add: normalize_line_empty)
  have xs_lines: "list_all (\<lambda>l. list_all (\<lambda>c. \<not> is_linebreak c) l) ?xs"
    using lines by (auto simp: list_all_iff dest: set_takeWhileD set_dropWhileD)
  have drop_xs: "dropWhile ?hdr ?xs = ?post"
  proof -
    have "dropWhile ?hdr ?xs = dropWhile ?hdr ?post"
      by (rule dropWhile_append2) (auto dest: set_takeWhileD)
    then show ?thesis by simp
  qed
  have right: "dropWhile ?hdr (splitlines_keepends (?U ls)) = map (\<lambda>l. l @ [LF]) ?post"
    by (simp add: splitlines_keepends_unlines [OF lines] dropWhile_header_terminated)
  show ?thesis
  proof (cases "?xs = []")
    case True
    then have "?post = []" by simp
    moreover have "normalize_unified_diff (?U ls) = [LF]"
      using out True by (simp add: normalize_unified_diff_def repl Let_def endswith_def)
    moreover have "dropWhile ?hdr (splitlines_keepends [LF]) = []"
      by (simp add: splitlines_keepends_def startswith_def lit_def)
    ultimately show ?thesis using right by (simp add: apply_by_lines)
  next
    case False
    then have "normalize_unified_diff (?U ls) = ?U ?xs"
      using out join_unlines [OF False, of LF] endswith_unlines [OF False]
      by (simp add: normalize_unified_diff_def repl Let_def)
    moreover have "dropWhile ?hdr (splitlines_keepends (?U ?xs)) = map (\<lambda>l. l @ [LF]) ?post"
      using drop_xs
      by (simp only: splitlines_keepends_unlines [OF xs_lines] dropWhile_header_terminated)
    ultimately show ?thesis using right by (simp add: apply_by_lines)
  qed
qed


theorem C2_witness:
  "apply_unified_diff [] (normalize_unified_diff
      (lit ''--- a/x\<newline>+++ b/x\<newline>@@ -0,0 +1 @@\<newline>+a\<newline>''))
   = apply_unified_diff [] (lit ''--- a/x\<newline>+++ b/x\<newline>@@ -0,0 +1 @@\<newline>+a\<newline>'')
   \<and> apply_unified_diff [] (lit ''--- a/x\<newline>+++ b/x\<newline>@@ -0,0 +1 @@\<newline>+a\<newline>'')
       = Inr (lit ''a\<newline>'')"
proof -
  let ?ls = "[lit ''--- a/x'', lit ''+++ b/x'', lit ''@@ -0,0 +1 @@'', lit ''+a'']"
  have d: "concat (map (\<lambda>l. l @ [LF]) ?ls) = lit ''--- a/x\<newline>+++ b/x\<newline>@@ -0,0 +1 @@\<newline>+a\<newline>''"
    by (simp add: lit_def)
  have 1: "list_all (\<lambda>l. list_all (\<lambda>c. \<not> is_linebreak c) l) ?ls"
    by (simp add: str_eval)
  have 2: "list_all (\<lambda>l. \<not> is_noise l \<and> hunk_inline_op_match l = None)
             (dropWhile (\<lambda>l. \<not> is_hunk_header l) ?ls)"
    by (simp add: norm_eval)
  have 3: "apply_unified_diff [] (lit ''--- a/x\<newline>+++ b/x\<newline>@@ -0,0 +1 @@\<newline>+a\<newline>'')
       = Inr (lit ''a\<newline>'')"
    by (simp add: apply_eval)
  show ?thesis
    using C2_normalize_keeps_canonical_diffs [OF 1 2, of "[]"] 3 unfolding d by simp
qed

text \<open>
  C2 (as the claim states it) does not hold. The normaliser turns CR LF into LF in the
  whole diff, inserted lines included: for an insertion that ends in CR LF both
  applications succeed, and they return different texts.
\<close>

theorem C2_crlf_insertion_differs:
  "apply_unified_diff [] (lit ''@@ -0,0 +1 @@\<newline>+a'' @ [CR, LF]) = Inr (lit ''a'' @ [CR, LF])
   \<and> apply_unified_diff [] (normalize_unified_diff (lit ''@@ -0,0 +1 @@\<newline>+a'' @ [CR, LF]))
       = Inr (lit ''a\<newline>'')
   \<and> lit ''a'' @ [CR, LF] \<noteq> lit ''a\<newline>''"
proof -
  have n: "normalize_unified_diff (lit ''@@ -0,0 +1 @@\<newline>+a'' @ [CR, LF])
      = lit ''@@ -0,0 +1 @@\<newline>+a\<newline>''"
    by (simp add: norm_eval)
  show ?thesis unfolding n by (simp add: apply_eval)
qed

section \<open>The JSON salvager on malformed model output\<close>

subsection \<open>The length guards of the decoder never fire\<close>

lemma scanstring_shorter: "scanstring s chunks = Some (t, r) \<Longrightarrow> length r < length s"
proof (induction s chunks rule: scanstring.induct)
  case (1 chunks)
  then show ?case by simp
next
  case (2 c r chunks)
  then show ?case
    by (auto split: if_splits list.splits option.splits) fastforce+
qed

lemma startswith_drop_shorter:
  "startswith s p \<Longrightarrow> p \<noteq> [] \<Longrightarrow> 0 < n \<Longrightarrow> length (drop n s) < length s"
  by (cases s) (auto simp: startswith_def)

lemma match_integer_shorter: "match_integer x = Some (t, y) \<Longrightarrow> length y < length x"
proof (cases "startswith x (lit ''-'')")
  case True
  assume a: "match_integer x = Some (t, y)"
  from True obtain x' where x: "x = 45 # x'" by (cases x) (auto simp: startswith_def lit_def)
  with a show ?thesis
    by (auto simp: match_integer_def Let_def startswith_def lit_def
        intro: le_less_trans [OF length_dropWhile_le] less_SucI
        split: list.splits if_splits)
next
  case False
  assume a: "match_integer x = Some (t, y)"
  with False show ?thesis
    by (auto simp: match_integer_def Let_def
        intro: le_less_trans [OF length_dropWhile_le]
        split: list.splits if_splits)
qed

lemma match_number_shorter: "match_number s = Some (tok, r) \<Longrightarrow> length r < length s"
proof -
  have d: "match_digits1 x = Some (ds, y) \<Longrightarrow> length y \<le> length x" for x ds y
    by (auto simp: match_digits1_def length_dropWhile_le split: if_splits)
  have f: "match_frac x = (t, y) \<Longrightarrow> length y \<le> length x" for x t y
    by (auto simp: match_frac_def split: if_splits option.splits dest!: d
        intro: order_trans)
  have e: "match_exp x = (t, y) \<Longrightarrow> length y \<le> length x" for x t y
    by (auto simp: match_exp_def Let_def split: if_splits option.splits dest!: d
        intro: order_trans)
  assume "match_number s = Some (tok, r)"
  then show ?thesis
    by (auto simp: match_number_def split: option.splits prod.splits
        dest!: match_integer_shorter f e)
qed

lemma scan_atom_shorter: "scan_atom s = Some (v, r) \<Longrightarrow> length r < length s"
  unfolding scan_atom_def
  by (auto split: if_splits option.splits dest: match_number_shorter
      intro!: startswith_drop_shorter simp: lit_def)

lemma scan_once_shorter:
  "scan_once s = Some (v, r) \<Longrightarrow> length r < length s"
  "parse_pairs s pairs = Some (v, r) \<Longrightarrow> length r < length s"
  "parse_elems s vals = Some (v, r) \<Longrightarrow> length r < length s"
proof (induction s and s pairs and s vals arbitrary: v r and v r and v r
    rule: scan_once_parse_pairs_parse_elems.induct)
  case 1
  then show ?case by simp
next
  case (2 c r0)
  show ?case
  proof (cases "c = DQ")
    case True
    with 2(3) show ?thesis by (auto dest!: scanstring_shorter)
  next
    case nq: False
    show ?thesis
    proof (cases "c = 123")
      case True
      with nq 2(3) 2(1) [of v r] show ?thesis
        by (auto split: if_splits) (use skip_ws_le [of r0] in \<open>auto\<close>)
    next
      case nb: False
      show ?thesis
      proof (cases "c = 91")
        case True
        with nq nb 2(3) 2(2) [of v r] show ?thesis
          by (auto split: if_splits) (use skip_ws_le [of r0] in \<open>auto\<close>)
      next
        case False
        with nq nb 2(3) show ?thesis by (auto dest: scan_atom_shorter)
      qed
    qed
  qed
next
  case (3 s pairs)
  let ?r3 = "\<lambda>r1. skip_ws (drop 1 (skip_ws r1))"
  from 3(3) obtain key r1 where ss: "scanstring s [] = Some (key, r1)"
    by (subst (asm) parse_pairs.simps) (auto split: option.splits)
  from 3(3) ss have c1: "startswith (skip_ws r1) (lit '':'')" and c2: "length (?r3 r1) < length s"
    by (subst (asm) parse_pairs.simps, auto split: if_splits)+
  from 3(3) ss c1 c2 obtain v4 r4 where so: "scan_once (?r3 r1) = Some (v4, r4)"
    by (subst (asm) parse_pairs.simps) (auto split: option.splits)
  from 3(3) ss c1 c2 so have c3: "length r4 < length s"
    by (subst (asm) parse_pairs.simps) (auto split: if_splits)
  show ?case
  proof (cases "startswith (skip_ws r4) (lit ''}'')")
    case True
    with 3(3) ss c1 c2 so c3 have "r = drop 1 (skip_ws r4)"
      by (subst (asm) parse_pairs.simps) auto
    with c3 skip_ws_le [of r4] show ?thesis by simp
  next
    case False
    with 3(3) ss c1 c2 so c3
    have c4: "startswith (skip_ws r4) (lit '','')"
      and c5: "startswith (?r3 r4) [DQ]"
      and rec: "parse_pairs (drop 1 (?r3 r4)) (pairs @ [(key, v4)]) = Some (v, r)"
      by (subst (asm) parse_pairs.simps, auto split: if_splits)+
    from "3.IH"(2) ss c1 c2 so c3 False c4 c5 rec
    have "length r < length (drop 1 (?r3 r4))" by auto
    also have "\<dots> \<le> length (?r3 r4)" by simp
    also have "\<dots> < length s" using c3 by (rule skip_ws_shorter3)
    finally show ?thesis .
  qed
next
  case (4 s vals)
  from 4(3) obtain v1 r1 where so: "scan_once s = Some (v1, r1)"
    by (subst (asm) parse_elems.simps) (auto split: option.splits)
  from 4(3) so have c1: "length r1 < length s"
    by (subst (asm) parse_elems.simps) (auto split: if_splits)
  show ?case
  proof (cases "startswith (skip_ws r1) (lit '']'')")
    case True
    with 4(3) so c1 have "r = drop 1 (skip_ws r1)"
      by (subst (asm) parse_elems.simps) auto
    with c1 skip_ws_le [of r1] show ?thesis by simp
  next
    case False
    with 4(3) so c1
    have c2: "startswith (skip_ws r1) (lit '','')"
      and rec: "parse_elems (skip_ws (drop 1 (skip_ws r1))) (vals @ [v1]) = Some (v, r)"
      by (subst (asm) parse_elems.simps, auto split: if_splits)+
    from "4.IH"(2) so c1 False c2 rec
    have "length r < length (skip_ws (drop 1 (skip_ws r1)))" by auto
    also have "\<dots> < length s" using c1 by (rule skip_ws_shorter3)
    finally show ?thesis .
  qed
qed

text \<open>So the tests on the lengths in \<open>parse_pairs\<close> and \<open>parse_elems\<close> never fail.\<close>

lemma parse_pairs_unguarded:
  "parse_pairs s pairs =
     (case scanstring s [] of
        None \<Rightarrow> None
      | Some (key, r1) \<Rightarrow>
          if \<not> startswith (skip_ws r1) (lit '':'') then None
          else (case scan_once (skip_ws (drop 1 (skip_ws r1))) of
              None \<Rightarrow> None
            | Some (v, r4) \<Rightarrow>
                if startswith (skip_ws r4) (lit ''}'')
                then Some (JObject (dict_of_pairs (pairs @ [(key, v)])), drop 1 (skip_ws r4))
                else if \<not> startswith (skip_ws r4) (lit '','') then None
                else if \<not> startswith (skip_ws (drop 1 (skip_ws r4))) [DQ] then None
                else parse_pairs (drop 1 (skip_ws (drop 1 (skip_ws r4)))) (pairs @ [(key, v)])))"
proof (cases "scanstring s []")
  case None
  then show ?thesis by (subst parse_pairs.simps) simp
next
  case (Some a)
  obtain key r1 where a: "a = (key, r1)" by (cases a)
  from Some a have r1: "length r1 < length s" by (auto dest: scanstring_shorter)
  then have r3: "length (skip_ws (drop 1 (skip_ws r1))) < length s" by (rule skip_ws_shorter3)
  show ?thesis
  proof (cases "scan_once (skip_ws (drop 1 (skip_ws r1)))")
    case None
    with Some a show ?thesis by (subst parse_pairs.simps) simp
  next
    case (Some b)
    obtain v r4 where b: "b = (v, r4)" by (cases b)
    from Some b r3 have "length r4 < length s" by (auto dest: scan_once_shorter(1))
    with \<open>scanstring s [] = Some a\<close> a Some b r3 show ?thesis
      by (subst parse_pairs.simps) simp
  qed
qed

lemma parse_elems_unguarded:
  "parse_elems s vals =
     (case scan_once s of
        None \<Rightarrow> None
      | Some (v, r1) \<Rightarrow>
          if startswith (skip_ws r1) (lit '']'') then Some (JArray (vals @ [v]), drop 1 (skip_ws r1))
          else if \<not> startswith (skip_ws r1) (lit '','') then None
          else parse_elems (skip_ws (drop 1 (skip_ws r1))) (vals @ [v]))"
proof (cases "scan_once s")
  case None
  then show ?thesis by (subst parse_elems.simps) simp
next
  case (Some b)
  obtain v r1 where b: "b = (v, r1)" by (cases b)
  from Some b have "length r1 < length s" by (auto dest: scan_once_shorter(1))
  with Some b show ?thesis by (subst parse_elems.simps) simp
qed

lemmas json_eval = str_eval is_json_ws_def skip_ws_def hex_value_def decode_uXXXX_def BACKSLASH_def
  match_digits1_def match_integer_def match_frac_def match_exp_def match_number_def scan_atom_def
  dict_of_pairs_def json_loads_def raw_decode_def is_digit_def parse_pairs.simps parse_elems.simps

lemmas salvage_eval = json_eval ci_json_def fence_re_match_def strip_code_fences_def ctrl_sub_def
  find_cp_def rfind_cp_def extract_first_json_value_def extract_json_object_def slice_def
  single_quote_key_def is_ident_start_def is_ident_char_def unquoted_key_def sq_val_def
  single_quote_value_def repair_common_llm_json_def unescape_if_looks_escaped_def
  postprocess_obj_def loads_dict_def loads_obj_def

text \<open>
  C9. \<open>loads_obj\<close> recovers a mapping from the two malformed outputs, whatever the
  \<open>unicode_escape\<close> codec does (it is not reached: neither value holds a backslash).
  \<^item> \<^verbatim>\<open>{diff: "hello"}\<close> is not JSON; the repair quotes the key, and the result maps
    \<open>diff\<close> to \<open>hello\<close>.
  \<^item> The text made of a \<^verbatim>\<open>```json\<close> line, the line \<^verbatim>\<open>{"diff":"abc"}\<close> and a closing
    \<^verbatim>\<open>```\<close> line is stripped of its fences, and the result maps \<open>diff\<close> to \<open>abc\<close>;
    the same holds with a blank after the colon, as the test suite writes it.
\<close>

theorem C9_salvage:
  "json_loads (lit ''{diff: '' @ DQ # lit ''hello'' @ DQ # lit ''}'') = None
   \<and> repair_common_llm_json (lit ''{diff: '' @ DQ # lit ''hello'' @ DQ # lit ''}'')
       = lit ''{'' @ DQ # lit ''diff'' @ DQ # lit '': '' @ DQ # lit ''hello'' @ DQ # lit ''}''
   \<and> loads_obj unicode_escape (lit ''{diff: '' @ DQ # lit ''hello'' @ DQ # lit ''}'')
       = Inr [(lit ''diff'', JString (lit ''hello''))]
   \<and> map_of [(lit ''diff'', JString (lit ''hello''))] (lit ''diff'') = Some (JString (lit ''hello''))
   \<and> strip_code_fences
        (lit ''```json\<newline>{'' @ DQ # lit ''diff'' @ DQ # lit '':'' @ DQ # lit ''abc'' @ DQ # lit ''}\<newline>```'')
       = lit ''{'' @ DQ # lit ''diff'' @ DQ # lit '':'' @ DQ # lit ''abc'' @ DQ # lit ''}''
   \<and> loads_obj unicode_escape
        (lit ''```json\<newline>{'' @ DQ # lit ''diff'' @ DQ # lit '':'' @ DQ # lit ''abc'' @ DQ # lit ''}\<newline>```'')
       = Inr [(lit ''diff'', JString (lit ''abc''))]
   \<and> loads_obj unicode_escape
        (lit ''```json\<newline>{'' @ DQ # lit ''diff'' @ DQ # lit '': '' @ DQ # lit ''abc'' @ DQ # lit ''}\<newline>```'')
       = Inr [(lit ''diff'', JString (lit ''abc''))]
   \<and> map_of [(lit ''diff'', JString (lit ''abc''))] (lit ''diff'') = Some (JString (lit ''abc''))"
  by (simp add: salvage_eval)

end
